theory Spec2Isabelle
  imports Main
begin

section \<open>Scan job orchestration of the htb console (\<^verbatim>\<open>src/htb/__main__.py\<close>)\<close>

text \<open>
  The model covers the part of \<^verbatim>\<open>HackTheBox\<close> that launches, watches, lists, cancels
  and drains scanner jobs: \<^verbatim>\<open>_jobs_list\<close>, \<^verbatim>\<open>_jobs_kill\<close>, \<^verbatim>\<open>_machine_scan\<close>,
  \<^verbatim>\<open>monitor_scan\<close> and the drain at the end of \<^verbatim>\<open>main\<close>.  Python objects that are
  shared and mutated (the trackers) live in an explicit heap; exceptions and blocking
  waits are values of the result type.
\<close>

subsection \<open>Python values\<close>

datatype error =
  AttributeError | RuntimeError | ValueError | IndexError | KeyboardInterrupt | ScanLaunchFailed

text \<open>
  The result of running a piece of the command loop: it returns (\<open>Done\<close>), an exception
  leaves it (\<open>Raised\<close>), or it stays blocked in a \<^verbatim>\<open>Queue.get()\<close> for which the
  environment supplies no further event (\<open>Waiting\<close>).  The state reached is kept in
  every case.
\<close>

datatype 'a outcome = Done 'a | Raised error 'a | Waiting 'a

text \<open>\<^verbatim>\<open>str(n)\<close> for an integer, as the f-strings of the source print it.\<close>

definition digit_char :: "nat \<Rightarrow> char" where
  "digit_char d = ''0123456789'' ! (d mod 10)"

fun str_nat :: "nat \<Rightarrow> string" where
  "str_nat n = (if n < 10 then [digit_char n] else str_nat (n div 10) @ [digit_char (n mod 10)])"

declare str_nat.simps [simp del]

definition str_int :: "int \<Rightarrow> string" where
  "str_int i = (if i < 0 then CHR ''-'' # str_nat (nat (- i)) else str_nat (nat i))"

text \<open>\<^verbatim>\<open>xs[i]\<close>: a negative index counts from the end, an index out of range raises.\<close>

definition py_index :: "'a list \<Rightarrow> int \<Rightarrow> error + 'a" where
  "py_index xs i =
     (if 0 \<le> i \<and> i < int (length xs) then Inr (xs ! nat i)
      else if i < 0 \<and> - int (length xs) \<le> i then Inr (xs ! nat (int (length xs) + i))
      else Inl IndexError)"

subsection \<open>Data model\<close>

text \<open>
  \<^verbatim>\<open>Service\<close>, \<^verbatim>\<open>Scanner\<close>, \<^verbatim>\<open>Machine\<close> and \<^verbatim>\<open>Tracker\<close> are imported by the source
  from modules that are not part of it; the records carry the attributes the source
  reads and writes, under the names it uses (\<open>name\<close> is prefixed by its class).
\<close>

record service =
  port :: int
  protocol :: string
  service_name :: string

record machine =
  machine_name :: string
  services :: "service list"

record scanner =
  scanner_name :: string
  recommended :: bool
  match :: "machine \<Rightarrow> bool"
  match_service :: "service \<Rightarrow> bool"

text \<open>
  A \<^verbatim>\<open>threading.Thread\<close>: \<^verbatim>\<open>join()\<close> raises \<^verbatim>\<open>RuntimeError\<close> on a thread that was never
  started, and assigning \<^verbatim>\<open>daemon\<close> raises \<^verbatim>\<open>RuntimeError\<close> on a thread that was
  started (``cannot set daemon status of active thread'').
\<close>

record py_thread =
  started :: bool
  daemon :: bool

definition thread_join :: "py_thread \<Rightarrow> error + unit" where
  "thread_join th = (if started th then Inr () else Inl RuntimeError)"

definition set_daemon :: "py_thread \<Rightarrow> bool \<Rightarrow> error + py_thread" where
  "set_daemon th v = (if started th then Inl RuntimeError else Inr (th\<lparr>daemon := v\<rparr>))"

text \<open>
  A completion channel is a \<^verbatim>\<open>queue.Queue\<close>: the shared \<^verbatim>\<open>self.job_events\<close>, or a
  queue created by one call of \<^verbatim>\<open>monitor_scan\<close>.
\<close>

datatype channel = JobEvents | LocalQueue nat

text \<open>
  The tracker of one job.  \<open>events\<close> is the attribute assigned when a job is put in the
  background; \<open>tracker_job_events\<close> is the attribute \<^verbatim>\<open>tracker.job_events\<close> that
  \<^verbatim>\<open>monitor_scan\<close> assigns and waits on.  \<open>lock\<close> is true while the
  \<^verbatim>\<open>threading.Lock\<close> is held.
\<close>

record tracker =
  machine :: machine
  service :: service
  scanner :: scanner
  status :: string
  stop :: bool
  silent :: bool
  events :: "channel option"
  tracker_job_events :: "channel option"
  lock :: bool
  thread :: "py_thread option"

text \<open>What the console prints: \<^verbatim>\<open>perror\<close>, \<^verbatim>\<open>pwarning\<close>, \<^verbatim>\<open>poutput\<close>, \<^verbatim>\<open>ppaged\<close>.\<close>

datatype report =
  Perror string | Pwarning string | Poutput string | Ppaged "string list list"

text \<open>
  The state of the \<^verbatim>\<open>HackTheBox\<close> object and of the trackers it refers to.  A tracker
  reference is a heap address; \<open>jobs\<close> is \<^verbatim>\<open>self.jobs\<close>, \<open>job_events\<close> the content of
  the queue \<^verbatim>\<open>self.job_events\<close>.  \<open>joined\<close> logs the calls of \<^verbatim>\<open>thread.join()\<close>,
  \<open>printed\<close> what the console printed, and the two counters name the next tracker and the
  next queue to be allocated.
\<close>

record state =
  heap :: "nat \<Rightarrow> tracker"
  jobs :: "nat list"
  job_events :: "nat list"
  joined :: "nat list"
  printed :: "report list"
  next_tracker :: nat
  next_queue :: nat

definition perror :: "string \<Rightarrow> state \<Rightarrow> state" where
  "perror msg s = s\<lparr>printed := printed s @ [Perror msg]\<rparr>"

definition pwarning :: "string \<Rightarrow> state \<Rightarrow> state" where
  "pwarning msg s = s\<lparr>printed := printed s @ [Pwarning msg]\<rparr>"

definition poutput :: "string \<Rightarrow> state \<Rightarrow> state" where
  "poutput msg s = s\<lparr>printed := printed s @ [Poutput msg]\<rparr>"

definition ppaged :: "string list list \<Rightarrow> state \<Rightarrow> state" where
  "ppaged table s = s\<lparr>printed := printed s @ [Ppaged table]\<rparr>"

text \<open>Assignment to one attribute of a tracker object.\<close>

definition update_tracker :: "nat \<Rightarrow> (tracker \<Rightarrow> tracker) \<Rightarrow> state \<Rightarrow> state" where
  "update_tracker r f s = s\<lparr>heap := (heap s)(r := f (heap s r))\<rparr>"

subsection \<open>\<^verbatim>\<open>_jobs_kill\<close>\<close>

text \<open>
  \<^verbatim>\<open>
  if args.job_id < 0 or args.job_id >= len(self.jobs):
      self.perror(f"{args.job_id}: no such job")
      return
  job = self.jobs[args.job_id]
  if job.thread is None:
      self.pwarning(f"{args.job_id}: already completed")
      return
  self.poutput(f"killing job {args.job_id}")
  job.stop = True
  \<close>
\<close>

definition jobs_kill :: "int \<Rightarrow> state \<Rightarrow> state outcome" where
  "jobs_kill job_id s =
     (if job_id < 0 \<or> job_id \<ge> int (length (jobs s))
      then Done (perror (str_int job_id @ '': no such job'') s)
      else case py_index (jobs s) job_id of
          Inl e \<Rightarrow> Raised e s
        | Inr job \<Rightarrow>
            if thread (heap s job) = None
            then Done (pwarning (str_int job_id @ '': already completed'') s)
            else Done (update_tracker job (\<lambda>t. t\<lparr>stop := True\<rparr>)
                        (poutput (''killing job '' @ str_int job_id) s)))"

subsection \<open>\<^verbatim>\<open>_jobs_list\<close>\<close>

text \<open>
  \<^verbatim>\<open>
  try:
      while True:
          t = self.job_events.get_nowait()
          t.thread.join()
          t.thread = None
          # t.status = "completed"
  except queue.Empty:
      pass
  \<close>
  \<^verbatim>\<open>get_nowait\<close> never blocks: the loop ends when the queue is empty.  Only
  \<^verbatim>\<open>queue.Empty\<close> is caught, so a failing \<^verbatim>\<open>join\<close> leaves the function.
\<close>

function grab_pending :: "state \<Rightarrow> state outcome" where
  "grab_pending s =
     (case job_events s of
        [] \<Rightarrow> Done s
      | t # q \<Rightarrow>
          (let s1 = s\<lparr>job_events := q\<rparr> in
           case thread (heap s1 t) of
             None \<Rightarrow> Raised AttributeError s1
           | Some th \<Rightarrow>
               (case thread_join th of
                  Inl e \<Rightarrow> Raised e s1
                | Inr _ \<Rightarrow>
                    grab_pending
                      (update_tracker t (\<lambda>x. x\<lparr>thread := None\<rparr>)
                         (s1\<lparr>joined := joined s1 @ [t]\<rparr>)))))"
  by pat_completeness auto
termination
  by (relation "measure (\<lambda>s. length (job_events s))") (auto simp: update_tracker_def)

declare grab_pending.simps [simp del]

text \<open>\<^verbatim>\<open>colorama.Style.DIM\<close>, the escape sequence \<^verbatim>\<open>ESC [ 2 m\<close>.\<close>

definition Style_DIM :: string where
  "Style_DIM = [CHR 0x1B, CHR ''['', CHR ''2'', CHR ''m'']"

text \<open>
  \<^verbatim>\<open>
  style = Style.DIM if job.thread is None else ""
  table.append([">" + style + str(ident), job.machine.name,
      f"{job.service.port}/{job.service.protocol} ({job.service.name})",
      job.scanner.name, job.status])
  \<close>
\<close>

definition job_row :: "state \<Rightarrow> nat \<Rightarrow> nat \<Rightarrow> string list" where
  "job_row s ident r =
     (let job = heap s r;
          style = (if thread job = None then Style_DIM else [])
      in [''>'' @ style @ str_nat ident,
          machine_name (machine job),
          str_int (port (service job)) @ ''/'' @ protocol (service job)
            @ '' ('' @ service_name (service job) @ '')'',
          scanner_name (scanner job),
          status job])"

definition job_table :: "state \<Rightarrow> string list list" where
  "job_table s =
     [[[], ''Host'', ''Service'', ''Scanner'', ''Status'']]
       @ map (\<lambda>(ident, job). job_row s ident job) (enumerate 0 (jobs s))"

definition jobs_list :: "state \<Rightarrow> state outcome" where
  "jobs_list s =
     (case grab_pending s of
        Done s1 \<Rightarrow> Done (ppaged (job_table s1) s1)
      | Raised e s1 \<Rightarrow> Raised e s1
      | Waiting s1 \<Rightarrow> Waiting s1)"

subsection \<open>The environment of a blocking wait\<close>

text \<open>
  While the command loop is blocked in \<^verbatim>\<open>Queue.get()\<close> the environment acts: an
  executor thread puts a tracker on a channel (\<open>Put\<close>), the operator presses C-c
  (\<open>Interrupt\<close>, delivered as \<^verbatim>\<open>KeyboardInterrupt\<close>) or C-z (\<open>Suspend\<close>, the signal
  \<^verbatim>\<open>SIGTSTP\<close>).  The events are taken in order at the \<^verbatim>\<open>get\<close>, the one point where
  the loop is suspended.
\<close>

datatype event = Put channel nat | Interrupt | Suspend

datatype wake = Got nat | Interrupted | GoToSleep | Blocked

text \<open>
  \<^verbatim>\<open>tracker.job_events.get()\<close> on the queue that \<^verbatim>\<open>monitor_scan\<close> has just created:
  it is empty, so the call returns the first tracker put on it.  A tracker put on the
  shared queue meanwhile stays there; one put on another private queue has no reader.
\<close>

fun await_local :: "channel \<Rightarrow> state \<Rightarrow> event list \<Rightarrow> wake \<times> state \<times> event list" where
  "await_local q s [] = (Blocked, s, [])"
| "await_local q s (Put c t # evs) =
     (if c = q then (Got t, s, evs)
      else if c = JobEvents then await_local q (s\<lparr>job_events := job_events s @ [t]\<rparr>) evs
      else await_local q s evs)"
| "await_local q s (Interrupt # evs) = (Interrupted, s, evs)"
| "await_local q s (Suspend # evs) = (GoToSleep, s, evs)"

subsection \<open>\<^verbatim>\<open>monitor_scan\<close>\<close>

definition job_label :: "tracker \<Rightarrow> string" where
  "job_label t =
     scanner_name (scanner t) @ '' for '' @ str_int (port (service t)) @ ''/''
       @ protocol (service t)"

text \<open>
  \<^verbatim>\<open>
  events = queue.Queue()
  tracker.job_events = events
  tracker.lock.release()
  ...
  try:
      signal.signal(signal.SIGTSTP, background_me)     # raises GoToSleep
      try:
          tracker = tracker.job_events.get()
      except KeyboardInterrupt:
          self.pwarning(f"cancelling ...")
          tracker.stop = True
      signal.signal(signal.SIGTSTP, signal.SIG_DFL)
  except GoToSleep:
      with tracker.lock:
          self.pwarning(f"backgrounding ...")
          tracker.silent = True
          tracker.events = self.job_events
          self.jobs.append(tracker)
  \<close>
  Releasing a lock that is not held raises \<^verbatim>\<open>RuntimeError\<close>; \<^verbatim>\<open>with tracker.lock\<close>
  waits while the lock is held.  The function returns the events it has not consumed.
\<close>

definition monitor_scan ::
  "nat \<Rightarrow> state \<Rightarrow> event list \<Rightarrow> (state \<times> event list) outcome" where
  "monitor_scan tracker s evs =
     (let events = LocalQueue (next_queue s);
          s1 = update_tracker tracker (\<lambda>t. t\<lparr>tracker_job_events := Some events\<rparr>)
                 (s\<lparr>next_queue := Suc (next_queue s)\<rparr>)
      in if \<not> lock (heap s1 tracker) then Raised RuntimeError (s1, evs)
         else
           (let s2 = update_tracker tracker (\<lambda>t. t\<lparr>lock := False\<rparr>) s1 in
            case await_local events s2 evs of
              (Blocked, s3, rest) \<Rightarrow> Waiting (s3, rest)
            | (Got t', s3, rest) \<Rightarrow> Done (s3, rest)
            | (Interrupted, s3, rest) \<Rightarrow>
                Done (update_tracker tracker (\<lambda>t. t\<lparr>stop := True\<rparr>)
                        (pwarning (''cancelling '' @ job_label (heap s3 tracker)) s3), rest)
            | (GoToSleep, s3, rest) \<Rightarrow>
                if lock (heap s3 tracker) then Waiting (s3, rest)
                else
                  (let s4 = update_tracker tracker (\<lambda>t. t\<lparr>lock := True\<rparr>) s3;
                       s5 = pwarning (''backgrounding '' @ job_label (heap s4 tracker)) s4;
                       s6 = update_tracker tracker (\<lambda>t. t\<lparr>silent := True\<rparr>) s5;
                       s7 = update_tracker tracker (\<lambda>t. t\<lparr>events := Some JobEvents\<rparr>) s6;
                       s8 = s7\<lparr>jobs := jobs s7 @ [tracker]\<rparr>
                   in Done (update_tracker tracker (\<lambda>t. t\<lparr>lock := False\<rparr>) s8, rest))))"

subsection \<open>\<^verbatim>\<open>_machine_scan\<close>\<close>

text \<open>
  The arguments \<^verbatim>\<open>machine scan\<close> parses: \<^verbatim>\<open>--service\<close>, \<^verbatim>\<open>--scanner\<close> and
  \<^verbatim>\<open>--recommended\<close> each take a string and default to \<^verbatim>\<open>None\<close>; \<^verbatim>\<open>--background\<close> is a
  flag.  An \<^verbatim>\<open>if\<close> on such an argument tests that it is a non-empty string.
\<close>

record scan_args =
  arg_machine :: machine
  arg_service :: "string option"
  arg_scanner :: "string option"
  arg_recommended :: "string option"
  arg_background :: bool

definition truthy :: "string option \<Rightarrow> bool" where
  "truthy a = (case a of None \<Rightarrow> False | Some x \<Rightarrow> x \<noteq> [])"

text \<open>\<^verbatim>\<open>str.split(sep)\<close> for a separator of one character.\<close>

fun split_on :: "char \<Rightarrow> string \<Rightarrow> string list" where
  "split_on sep [] = [[]]"
| "split_on sep (c # cs) =
     (if c = sep then [] # split_on sep cs
      else (case split_on sep cs of
              [] \<Rightarrow> [[c]]
            | p # ps \<Rightarrow> (c # p) # ps))"

text \<open>
  The first selection of scanners from \<^verbatim>\<open>AVAILABLE_SCANNERS\<close>, a table of a module
  that is not part of the source and therefore a parameter here:
  \<^verbatim>\<open>
  if args.recommended:
      scanners = [s for s in AVAILABLE_SCANNERS if s.recommended and s.match(m)]
  elif args.scanner:
      scanners = [s for s in AVAILABLE_SCANNERS if s.name == args.scanner]
  else:
      scanners = [s for s in AVAILABLE_SCANNERS if s.match(m)]
  \<close>
\<close>

definition applicable_scanners :: "scanner list \<Rightarrow> scan_args \<Rightarrow> scanner list" where
  "applicable_scanners available args =
     (let m = arg_machine args in
      if truthy (arg_recommended args)
      then filter (\<lambda>s. recommended s \<and> match s m) available
      else if truthy (arg_scanner args)
      then filter (\<lambda>s. Some (scanner_name s) = arg_scanner args) available
      else filter (\<lambda>s. match s m) available)"

text \<open>
  \<^verbatim>\<open>
  if args.service:
      port = int(args.service.split("/")[0])
      protocol = args.service.split("/")[1]
      services = [s for s in m.services if s.port == port and s.protocol == protocol]
  else:
      services = m.services
  \<close>
  \<^verbatim>\<open>int\<close> is the builtin of Python: what it accepts depends on the Unicode
  character database and on limits of the interpreter.  Its result on the text before
  the first \<^verbatim>\<open>/\<close>, a number or the \<^verbatim>\<open>ValueError\<close> it raises, is the parameter
  \<open>port_value\<close>; it is looked at only where the source calls \<^verbatim>\<open>int\<close>.
\<close>

definition requested_services :: "error + int \<Rightarrow> scan_args \<Rightarrow> error + service list" where
  "requested_services port_value args =
     (let m = arg_machine args in
      case arg_service args of
        None \<Rightarrow> Inr (services m)
      | Some text \<Rightarrow>
          if text = [] then Inr (services m)
          else
            (let parts = split_on CHR ''/'' text in
             case port_value of
               Inl e \<Rightarrow> Inl e
             | Inr wanted_port \<Rightarrow>
                 (case py_index parts 1 of
                    Inl e \<Rightarrow> Inl e
                  | Inr wanted_protocol \<Rightarrow>
                      Inr (filter (\<lambda>s. port s = wanted_port \<and> protocol s = wanted_protocol)
                             (services m)))))"

text \<open>
  The second selection keeps the scanners that match one of the services:
  \<^verbatim>\<open>
  if args.recommended:
      scanners = [s for s in scanners
                  if s.recommended and any([s.match_service(svc) for svc in services])]
  elif args.scanner:
      scanners = [s for s in scanners
                  if s.name == args.scanner and any([s.match_service(svc) for svc in services])]
  else:
      scanners = [s for s in scanners if any([s.match_service(svc) for svc in services])]
  \<close>
\<close>

definition matching_scanners :: "scan_args \<Rightarrow> scanner list \<Rightarrow> service list \<Rightarrow> scanner list" where
  "matching_scanners args scanners svcs =
     (if truthy (arg_recommended args)
      then filter (\<lambda>s. recommended s \<and> list_ex (match_service s) svcs) scanners
      else if truthy (arg_scanner args)
      then filter (\<lambda>s. Some (scanner_name s) = arg_scanner args \<and> list_ex (match_service s) svcs)
             scanners
      else filter (\<lambda>s. list_ex (match_service s) svcs) scanners)"

text \<open>
  Modelled from the spec: \<^verbatim>\<open>Machine.scan\<close>, which the source calls as
  \<^verbatim>\<open>m.scan(scanner, service, silent=args.background)\<close>, is not part of the source.  By
  sections 4.2 and 5 of the specification the new job is in state \<^verbatim>\<open>running\<close>, its
  handoff lock is held by its creator, no consumer is registered yet, and its executor
  thread has been started.  By sections 4.3 and 7 the call fails at once with
  \<^verbatim>\<open>ScanLaunchFailed\<close>, and creates no job, when the external tool cannot be started;
  whether it can is the parameter \<open>startable\<close>.
\<close>

definition scan ::
  "(scanner \<Rightarrow> service \<Rightarrow> bool) \<Rightarrow> machine \<Rightarrow> scanner \<Rightarrow> service \<Rightarrow> bool \<Rightarrow> state
     \<Rightarrow> error + nat \<times> state" where
  "scan startable m sc svc quiet s =
     (if \<not> startable sc svc then Inl ScanLaunchFailed
      else
        (let r = next_tracker s;
             job = \<lparr>machine = m, service = svc, scanner = sc, status = ''running'',
                    stop = False, silent = quiet, events = None, tracker_job_events = None,
                    lock = True, thread = Some \<lparr>started = True, daemon = False\<rparr>\<rparr>
         in Inr (r, s\<lparr>heap := (heap s)(r := job), next_tracker := Suc r\<rparr>)))"

text \<open>
  \<^verbatim>\<open>
  for service in services:
      for scanner in scanners:
          if not scanner.match_service(service):
              continue
          self.poutput(f"beginning {scanner.name} scan on ...")
          tracker = m.scan(scanner, service, silent=args.background)
          if args.background:
              tracker.events = self.job_events
              tracker.lock.release()
              self.jobs.append(tracker)
          else:
              self.monitor_scan(tracker)
  \<close>
  Nothing in the source catches the exception of a failed launch: it leaves the
  command.
\<close>

definition beginning :: "scanner \<Rightarrow> service \<Rightarrow> string" where
  "beginning sc svc =
     ''beginning '' @ scanner_name sc @ '' scan on '' @ str_int (port svc) @ ''/''
       @ protocol svc @ '' ('' @ service_name svc @ '')''"

fun run_scanners ::
  "(scanner \<Rightarrow> service \<Rightarrow> bool) \<Rightarrow> scan_args \<Rightarrow> service \<Rightarrow> scanner list \<Rightarrow> state
     \<Rightarrow> event list \<Rightarrow> (state \<times> event list) outcome" where
  "run_scanners startable args svc [] s evs = Done (s, evs)"
| "run_scanners startable args svc (sc # scs) s evs =
     (if \<not> match_service sc svc then run_scanners startable args svc scs s evs
      else
        (let s1 = poutput (beginning sc svc) s in
         case scan startable (arg_machine args) sc svc (arg_background args) s1 of
           Inl e \<Rightarrow> Raised e (s1, evs)
         | Inr (tracker, s2) \<Rightarrow>
             if arg_background args then
               (let s3 = update_tracker tracker (\<lambda>t. t\<lparr>events := Some JobEvents\<rparr>) s2 in
                if \<not> lock (heap s3 tracker) then Raised RuntimeError (s3, evs)
                else
                  (let s4 = update_tracker tracker (\<lambda>t. t\<lparr>lock := False\<rparr>) s3
                   in run_scanners startable args svc scs (s4\<lparr>jobs := jobs s4 @ [tracker]\<rparr>)
                        evs))
             else
               (case monitor_scan tracker s2 evs of
                  Done (s3, rest) \<Rightarrow> run_scanners startable args svc scs s3 rest
                | Raised e x \<Rightarrow> Raised e x
                | Waiting x \<Rightarrow> Waiting x)))"

fun run_services ::
  "(scanner \<Rightarrow> service \<Rightarrow> bool) \<Rightarrow> scan_args \<Rightarrow> service list \<Rightarrow> scanner list \<Rightarrow> state
     \<Rightarrow> event list \<Rightarrow> (state \<times> event list) outcome" where
  "run_services startable args [] scanners s evs = Done (s, evs)"
| "run_services startable args (svc # svcs) scanners s evs =
     (case run_scanners startable args svc scanners s evs of
        Done (s1, rest) \<Rightarrow> run_services startable args svcs scanners s1 rest
      | Raised e x \<Rightarrow> Raised e x
      | Waiting x \<Rightarrow> Waiting x)"

definition machine_scan ::
  "error + int \<Rightarrow> (scanner \<Rightarrow> service \<Rightarrow> bool) \<Rightarrow> scanner list \<Rightarrow> scan_args \<Rightarrow> state
     \<Rightarrow> event list \<Rightarrow> (state \<times> event list) outcome" where
  "machine_scan port_value startable available args s evs =
     (let scanners = applicable_scanners available args in
      case requested_services port_value args of
        Inl e \<Rightarrow> Raised e (s, evs)
      | Inr svcs \<Rightarrow>
          if length svcs = 0 then Done (perror ''no matching services found'' s, evs)
          else
            (let scanners = matching_scanners args scanners svcs in
             if length scanners = 0 then Done (perror ''no matching scanners found'' s, evs)
             else run_services startable args svcs scanners s evs))"

subsection \<open>The drain at the end of \<^verbatim>\<open>main\<close>\<close>

text \<open>\<^verbatim>\<open>[j for j in cmd.jobs if j.thread is not None]\<close>\<close>

definition live_jobs :: "state \<Rightarrow> nat list" where
  "live_jobs s = filter (\<lambda>j. thread (heap s j) \<noteq> None) (jobs s)"

text \<open>
  \<^verbatim>\<open>
  while len([j for j in cmd.jobs if j.thread is not None]):
      tracker = cmd.job_events.get()
      tracker.status = "completed"
      tracker.thread = None
  \<close>
  \<^verbatim>\<open>get\<close> takes the head of the shared queue; while the queue is empty it waits for
  the environment.  \<^verbatim>\<open>SIGTSTP\<close> has its default action here, which stops and later
  continues the process.
\<close>

function wait_jobs :: "state \<Rightarrow> event list \<Rightarrow> (state \<times> event list) outcome" where
  "wait_jobs s evs =
     (if length (live_jobs s) = 0 then Done (s, evs)
      else
        (case job_events s of
           t # q \<Rightarrow>
             wait_jobs
               (update_tracker t (\<lambda>x. x\<lparr>thread := None\<rparr>)
                  (update_tracker t (\<lambda>x. x\<lparr>status := ''completed''\<rparr>) (s\<lparr>job_events := q\<rparr>)))
               evs
         | [] \<Rightarrow>
             (case evs of
                [] \<Rightarrow> Waiting (s, [])
              | Put c t # rest \<Rightarrow>
                  if c = JobEvents then wait_jobs (s\<lparr>job_events := job_events s @ [t]\<rparr>) rest
                  else wait_jobs s rest
              | Interrupt # rest \<Rightarrow> Raised KeyboardInterrupt (s, rest)
              | Suspend # rest \<Rightarrow> wait_jobs s rest)))"
  by pat_completeness auto
termination
  by (relation "measure (\<lambda>(s, evs). 2 * length evs + length (job_events s))")
     (auto simp: update_tracker_def)

declare wait_jobs.simps [simp del]

text \<open>
  \<^verbatim>\<open>
  for j in [j for j in cmd.jobs if j.thread is not None]:
      j.thread.daemon = True
  \<close>
\<close>

fun force_exit :: "nat list \<Rightarrow> state \<Rightarrow> state outcome" where
  "force_exit [] s = Done s"
| "force_exit (j # js) s =
     (case thread (heap s j) of
        None \<Rightarrow> Raised AttributeError s
      | Some th \<Rightarrow>
          (case set_daemon th True of
             Inl e \<Rightarrow> Raised e s
           | Inr th' \<Rightarrow> force_exit js (update_tracker j (\<lambda>x. x\<lparr>thread := Some th'\<rparr>) s)))"

text \<open>
  \<^verbatim>\<open>
  try:
      if len([j for j in cmd.jobs if j.thread is not None]):
          cmd.poutput("waiting for background jobs to complete")
      while ...                                  # wait_jobs
  except KeyboardInterrupt:
      cmd.pwarning("cancelling background jobs")
      for j in cmd.jobs:
          j.stop = True
      try:
          while ...                              # wait_jobs
      except KeyboardInterrupt:
          cmd.pwarning("forcing background job exit!")
          for j in [j for j in cmd.jobs if j.thread is not None]:
              j.thread.daemon = True
  \<close>
\<close>

definition stop_all :: "state \<Rightarrow> state" where
  "stop_all s = fold (\<lambda>j. update_tracker j (\<lambda>x. x\<lparr>stop := True\<rparr>)) (jobs s) s"

definition main_drain :: "state \<Rightarrow> event list \<Rightarrow> (state \<times> event list) outcome" where
  "main_drain s evs =
     (let s0 = (if length (live_jobs s) \<noteq> 0
                then poutput ''waiting for background jobs to complete'' s else s)
      in case wait_jobs s0 evs of
           Raised e (s1, evs1) \<Rightarrow>
             if e \<noteq> KeyboardInterrupt then Raised e (s1, evs1)
             else
               (let s2 = stop_all (pwarning ''cancelling background jobs'' s1) in
                case wait_jobs s2 evs1 of
                  Raised e' (s3, evs2) \<Rightarrow>
                    if e' \<noteq> KeyboardInterrupt then Raised e' (s3, evs2)
                    else
                      (let s4 = pwarning ''forcing background job exit!'' s3 in
                       case force_exit (live_jobs s4) s4 of
                         Done s5 \<Rightarrow> Done (s5, evs2)
                       | Raised e'' s5 \<Rightarrow> Raised e'' (s5, evs2)
                       | Waiting s5 \<Rightarrow> Waiting (s5, evs2))
                | Done x \<Rightarrow> Done x
                | Waiting x \<Rightarrow> Waiting x)
         | Done x \<Rightarrow> Done x
         | Waiting x \<Rightarrow> Waiting x)"

subsection \<open>The executor of a job\<close>

text \<open>
  Modelled from the spec: the executor thread of a job, started by \<^verbatim>\<open>Machine.scan\<close>,
  is not part of the source.  By sections 4.2 and 4.3 of the specification a job that
  finishes, normally, cancelled or with a failed tool, is marked \<^verbatim>\<open>completed\<close>; by
  section 5 the executor then signals once, under the handoff lock, on the channel
  registered as the consumer of the job, and cannot do so while the creator of the
  job still holds the lock.  The consumer is the channel registered last (section 3,
  \<^verbatim>\<open>owning_channel\<close>): the source registers the queue of a watch in
  \<^verbatim>\<open>tracker.job_events\<close> and, at a handoff to the job table, the shared queue in
  \<^verbatim>\<open>tracker.events\<close>, and a job has both only after a watch that was sent to the
  background.  A tracker put on the queue of a watch is not kept in the state: only the
  monitor that waits on it reads it.
\<close>

definition consumer :: "tracker \<Rightarrow> channel option" where
  "consumer t = (case events t of Some c \<Rightarrow> Some c | None \<Rightarrow> tracker_job_events t)"

definition executor_finish :: "nat \<Rightarrow> state \<Rightarrow> state" where
  "executor_finish t s =
     (if lock (heap s t) then s
      else
        (let s1 = update_tracker t (\<lambda>x. x\<lparr>status := ''completed''\<rparr>) s in
         if consumer (heap s t) = Some JobEvents
         then s1\<lparr>job_events := job_events s1 @ [t]\<rparr>
         else s1))"

subsection \<open>Auxiliary notions and example states\<close>

text \<open>The value an outcome carries, whichever way the code was left.\<close>

fun reached :: "'a outcome \<Rightarrow> 'a" where
  "reached (Done x) = x"
| "reached (Raised e x) = x"
| "reached (Waiting x) = x"

text \<open>
  \<open>kept s s'\<close>: the job table is the same, a handle that was live is still live unless
  the job is marked completed, and a job marked completed stays so.
\<close>

definition kept :: "state \<Rightarrow> state \<Rightarrow> bool" where
  "kept s s' \<longleftrightarrow>
     jobs s' = jobs s
     \<and> (\<forall>j. (thread (heap s j) \<noteq> None \<longrightarrow>
               thread (heap s' j) \<noteq> None \<or> status (heap s' j) = ''completed'')
           \<and> (status (heap s j) = ''completed'' \<longrightarrow> status (heap s' j) = ''completed''))"

text \<open>
  Events that do not wake a monitor waiting on the queue \<open>q\<close>: trackers put on another
  queue.  \<open>shared_puts\<close> lists the trackers a sequence of events puts on the shared
  queue.
\<close>

fun passes_by :: "channel \<Rightarrow> event \<Rightarrow> bool" where
  "passes_by q (Put c t) = (c \<noteq> q)"
| "passes_by q Interrupt = False"
| "passes_by q Suspend = False"

fun shared_puts :: "event list \<Rightarrow> nat list" where
  "shared_puts [] = []"
| "shared_puts (Put c t # evs) = (if c = JobEvents then t # shared_puts evs else shared_puts evs)"
| "shared_puts (Interrupt # evs) = shared_puts evs"
| "shared_puts (Suspend # evs) = shared_puts evs"



definition http :: service where
  "http = \<lparr>port = 80, protocol = ''tcp'', service_name = ''http''\<rparr>"

definition box :: machine where
  "box = \<lparr>machine_name = ''box'', services = [http]\<rparr>"

text \<open>The registry of scenario A: both scanners match everything, only \<open>S1\<close> is recommended.\<close>

definition S1 :: scanner where
  "S1 = \<lparr>scanner_name = ''S1'', recommended = True, match = (\<lambda>m. True),
          match_service = (\<lambda>svc. True)\<rparr>"

definition S2 :: scanner where
  "S2 = \<lparr>scanner_name = ''S2'', recommended = False, match = (\<lambda>m. True),
          match_service = (\<lambda>svc. True)\<rparr>"

text \<open>A scanner that matches every service but no machine.\<close>

definition S3 :: scanner where
  "S3 = \<lparr>scanner_name = ''S3'', recommended = False, match = (\<lambda>m. False),
          match_service = (\<lambda>svc. True)\<rparr>"

text \<open>A job as \<^verbatim>\<open>machine scan --background\<close> leaves it, and one as \<open>scan\<close> creates it.\<close>

definition background_job :: tracker where
  "background_job =
     \<lparr>machine = box, service = http, scanner = S1, status = ''running'', stop = False,
      silent = True, events = Some JobEvents, tracker_job_events = None, lock = False,
      thread = Some \<lparr>started = True, daemon = False\<rparr>\<rparr>"

definition created_job :: tracker where
  "created_job =
     \<lparr>machine = box, service = http, scanner = S1, status = ''running'', stop = False,
      silent = False, events = None, tracker_job_events = None, lock = True,
      thread = Some \<lparr>started = True, daemon = False\<rparr>\<rparr>"

text \<open>
  No job yet; one background job running; the same job after its executor has
  finished; and after \<^verbatim>\<open>jobs list\<close> has then reconciled it.
\<close>

definition idle :: state where
  "idle =
     \<lparr>heap = (\<lambda>r. created_job), jobs = [], job_events = [], joined = [], printed = [],
      next_tracker = 0, next_queue = 0\<rparr>"

definition one_running :: state where
  "one_running =
     \<lparr>heap = (\<lambda>r. background_job), jobs = [0], job_events = [], joined = [], printed = [],
      next_tracker = 1, next_queue = 0\<rparr>"

definition one_signalled :: state where
  "one_signalled =
     one_running
       \<lparr>heap := (heap one_running)(0 := background_job\<lparr>status := ''completed''\<rparr>),
        job_events := [0]\<rparr>"

definition one_listed :: state where
  "one_listed =
     one_running
       \<lparr>heap := (heap one_running)
           (0 := background_job\<lparr>status := ''completed'', thread := None\<rparr>),
        joined := [0],
        printed :=
          [Ppaged [[[], ''Host'', ''Service'', ''Scanner'', ''Status''],
                   [''>'' @ Style_DIM @ ''0'', ''box'', ''80/tcp (http)'', ''S1'', ''completed'']]]\<rparr>"

text \<open>A job created for the foreground, before \<^verbatim>\<open>monitor_scan\<close> is called on it.\<close>

definition watched :: state where
  "watched = idle\<lparr>next_tracker := 1\<rparr>"

text \<open>
  The state \<open>watched\<close> after C-z; after the executor of the job has then finished; and
  after the drain, or \<^verbatim>\<open>jobs list\<close>, has received the signal.
\<close>

definition watched_detached :: state where
  "watched_detached =
     watched
       \<lparr>heap := (heap watched)
           (0 := created_job\<lparr>tracker_job_events := Some (LocalQueue 0), lock := False,
                   silent := True, events := Some JobEvents\<rparr>),
        jobs := [0], printed := [Pwarning ''backgrounding S1 for 80/tcp''], next_queue := 1\<rparr>"

definition watched_signalled :: state where
  "watched_signalled =
     watched_detached
       \<lparr>heap := (heap watched)
           (0 := created_job\<lparr>tracker_job_events := Some (LocalQueue 0), lock := False,
                   silent := True, events := Some JobEvents, status := ''completed''\<rparr>),
        job_events := [0]\<rparr>"

definition watched_drained :: state where
  "watched_drained =
     watched_detached
       \<lparr>heap := (heap watched)
           (0 := created_job\<lparr>tracker_job_events := Some (LocalQueue 0), lock := False,
                   silent := True, events := Some JobEvents, status := ''completed'',
                   thread := None\<rparr>),
        printed := [Pwarning ''backgrounding S1 for 80/tcp'',
                    Poutput ''waiting for background jobs to complete'']\<rparr>"

definition watched_listed :: state where
  "watched_listed =
     watched_detached
       \<lparr>heap := (heap watched)
           (0 := created_job\<lparr>tracker_job_events := Some (LocalQueue 0), lock := False,
                   silent := True, events := Some JobEvents, status := ''completed'',
                   thread := None\<rparr>),
        joined := [0],
        printed := [Pwarning ''backgrounding S1 for 80/tcp'',
                    Ppaged [[[], ''Host'', ''Service'', ''Scanner'', ''Status''],
                            [''>'' @ Style_DIM @ ''0'', ''box'', ''80/tcp (http)'', ''S1'',
                             ''completed'']]]\<rparr>"


definition other_port :: scan_args where
  "other_port = \<lparr>arg_machine = box, arg_service = Some ''443/tcp'', arg_scanner = None,
                  arg_recommended = None, arg_background = True\<rparr>"

definition recommended_only :: scan_args where
  "recommended_only = \<lparr>arg_machine = box, arg_service = Some ''80/tcp'', arg_scanner = None,
                        arg_recommended = Some ''yes'', arg_background = True\<rparr>"


text \<open>Every external tool can be started.\<close>

definition all_start :: "scanner \<Rightarrow> service \<Rightarrow> bool" where
  "all_start sc svc = True"

section \<open>Properties\<close>

subsection \<open>Evaluation of the printing helpers\<close>

lemma str_nat_digit: "n < 10 \<Longrightarrow> str_nat n = [digit_char n]"
  by (simp add: str_nat.simps)

lemma str_int_digit: "0 \<le> i \<Longrightarrow> i < 10 \<Longrightarrow> str_int i = [digit_char (nat i)]"
  by (simp add: str_int_def str_nat_digit)

lemma str_int_80: "str_int 80 = ''80''"
  by (simp add: str_int_def str_nat.simps [of 80] str_nat_digit digit_char_def)

lemma py_index_in_range:
  "0 \<le> i \<Longrightarrow> i < int (length xs) \<Longrightarrow> py_index xs i = Inr (xs ! nat i)"
  by (simp add: py_index_def)

subsection \<open>Cancelling a job\<close>

text \<open>
  C5: cancel with an index out of range reports the missing job and changes nothing
  else; cancel of a job whose handle is cleared reports that it has completed and
  changes nothing else; otherwise the stop flag of that job is set, every other field
  of every job stays as it was, and the call returns at once.
\<close>

theorem jobs_kill_cancel:
  "(job_id < 0 \<or> int (length (jobs s)) \<le> job_id \<longrightarrow>
      jobs_kill job_id s
        = Done (s\<lparr>printed := printed s @ [Perror (str_int job_id @ '': no such job'')]\<rparr>))
   \<and> (0 \<le> job_id \<and> job_id < int (length (jobs s))
        \<and> thread (heap s (jobs s ! nat job_id)) = None \<longrightarrow>
      jobs_kill job_id s
        = Done (s\<lparr>printed := printed s @ [Pwarning (str_int job_id @ '': already completed'')]\<rparr>))
   \<and> (0 \<le> job_id \<and> job_id < int (length (jobs s))
        \<and> thread (heap s (jobs s ! nat job_id)) \<noteq> None \<longrightarrow>
      jobs_kill job_id s
        = Done (s\<lparr>printed := printed s @ [Poutput (''killing job '' @ str_int job_id)],
                  heap := (heap s)(jobs s ! nat job_id :=
                            (heap s (jobs s ! nat job_id))\<lparr>stop := True\<rparr>)\<rparr>))"
  by (auto simp: jobs_kill_def py_index_in_range perror_def pwarning_def poutput_def
        update_tracker_def)

theorem jobs_kill_cancel_witness:
  "jobs_kill 7 one_running = Done (one_running\<lparr>printed := [Perror ''7: no such job'']\<rparr>)
   \<and> jobs_kill 0 one_listed
       = Done (one_listed\<lparr>printed := printed one_listed @ [Pwarning ''0: already completed'']\<rparr>)
   \<and> jobs_kill 0 one_running
       = Done (one_running\<lparr>printed := [Poutput ''killing job 0''],
                 heap := (heap one_running)(0 := background_job\<lparr>stop := True\<rparr>)\<rparr>)"
  using jobs_kill_cancel [of 7 one_running] jobs_kill_cancel [of 0 one_listed]
    jobs_kill_cancel [of 0 one_running]
  by (simp add: one_running_def one_listed_def background_job_def str_int_digit digit_char_def)

text \<open>
  C10: cancel never fails on the table access, whatever integer it is given: a
  negative index gets the report of an index that is too large and is not taken from
  the end of the table, and the access the code makes in range is the entry counted
  from the front.
\<close>

theorem jobs_kill_index_total:
  "(\<exists>s'. jobs_kill job_id s = Done s')
   \<and> (job_id < 0 \<or> int (length (jobs s)) \<le> job_id \<longrightarrow>
        jobs_kill job_id s = Done (perror (str_int job_id @ '': no such job'') s))
   \<and> (0 \<le> job_id \<and> job_id < int (length (jobs s)) \<longrightarrow>
        py_index (jobs s) job_id = Inr (jobs s ! nat job_id))"
  by (auto simp: jobs_kill_def py_index_in_range)

theorem jobs_kill_index_total_witness:
  "jobs_kill (- 1) one_running = Done (perror ''-1: no such job'' one_running)
   \<and> jobs_kill 1 one_running = Done (perror ''1: no such job'' one_running)
   \<and> py_index (jobs one_running) 0 = Inr 0
   \<and> py_index (jobs one_running) (- 1) = Inr 0"
  using jobs_kill_index_total [of "- 1" one_running] jobs_kill_index_total [of 1 one_running]
    jobs_kill_index_total [of 0 one_running]
  by (simp add: one_running_def str_int_def str_nat_digit digit_char_def py_index_def)

subsection \<open>Listing the jobs\<close>

lemma grab_pending_empty: "job_events s = [] \<Longrightarrow> grab_pending s = Done s"
  by (simp add: grab_pending.simps)

lemma grab_pending_step:
  "job_events s = t # q \<Longrightarrow>
   grab_pending s =
     (case thread (heap s t) of
        None \<Rightarrow> Raised AttributeError (s\<lparr>job_events := q\<rparr>)
      | Some th \<Rightarrow>
          if started th
          then grab_pending (s\<lparr>job_events := q, joined := joined s @ [t],
                               heap := (heap s)(t := (heap s t)\<lparr>thread := None\<rparr>)\<rparr>)
          else Raised RuntimeError (s\<lparr>job_events := q\<rparr>))"
  by (subst grab_pending.simps)
     (simp add: Let_def thread_join_def update_tracker_def split: option.splits)

lemma grab_pending_not_waiting: "grab_pending s \<noteq> Waiting x"
proof (induction q \<equiv> "job_events s" arbitrary: s)
  case Nil
  then show ?case by (simp add: grab_pending_empty)
next
  case (Cons t q)
  from Cons(2) have e: "job_events s = t # q" by simp
  show ?case
    using Cons(1) by (simp add: grab_pending_step[OF e] split: option.splits)
qed

lemma grab_pending_Done:
  "grab_pending s = Done s' \<Longrightarrow>
     job_events s' = [] \<and> jobs s' = jobs s \<and> printed s' = printed s
     \<and> next_tracker s' = next_tracker s \<and> next_queue s' = next_queue s
     \<and> joined s' = joined s @ job_events s
     \<and> heap s' = (\<lambda>r. if r \<in> set (job_events s) then (heap s r)\<lparr>thread := None\<rparr> else heap s r)"
proof (induction q \<equiv> "job_events s" arbitrary: s)
  case Nil
  then show ?case by (simp add: grab_pending_empty)
next
  case (Cons t q)
  from Cons(2) have e: "job_events s = t # q" by simp
  let ?s2 = "s\<lparr>job_events := q, joined := joined s @ [t],
                heap := (heap s)(t := (heap s t)\<lparr>thread := None\<rparr>)\<rparr>"
  from Cons(3) have rec: "grab_pending ?s2 = Done s'"
    by (simp add: grab_pending_step[OF e] split: option.splits if_splits)
  have "job_events s' = [] \<and> jobs s' = jobs ?s2 \<and> printed s' = printed ?s2
     \<and> next_tracker s' = next_tracker ?s2 \<and> next_queue s' = next_queue ?s2
     \<and> joined s' = joined ?s2 @ job_events ?s2
     \<and> heap s' = (\<lambda>r. if r \<in> set (job_events ?s2) then (heap ?s2 r)\<lparr>thread := None\<rparr> else heap ?s2 r)"
    by (rule Cons(1)[OF _ rec]) simp
  then show ?case using e by (auto simp: fun_eq_iff)
qed

lemma grab_pending_returns:
  "distinct (job_events s) \<Longrightarrow>
   \<forall>t \<in> set (job_events s). \<exists>th. thread (heap s t) = Some th \<and> started th \<Longrightarrow>
   \<exists>s'. grab_pending s = Done s'"
proof (induction q \<equiv> "job_events s" arbitrary: s)
  case Nil
  then show ?case by (simp add: grab_pending_empty)
next
  case (Cons t q)
  from Cons(2) have e: "job_events s = t # q" by simp
  let ?s2 = "s\<lparr>job_events := q, joined := joined s @ [t],
                heap := (heap s)(t := (heap s t)\<lparr>thread := None\<rparr>)\<rparr>"
  from Cons(4) e obtain th where th: "thread (heap s t) = Some th" and st: "started th"
    by auto
  have "\<exists>s'. grab_pending ?s2 = Done s'"
    using Cons(3,4) e by (intro Cons(1)) auto
  then show ?case using th st by (simp add: grab_pending_step[OF e])
qed

lemma job_table_cong:
  "heap s' = heap s \<Longrightarrow> jobs s' = jobs s \<Longrightarrow> job_table s' = job_table s"
  by (simp add: job_table_def job_row_def)

lemma job_table_row:
  "i < length (jobs s) \<Longrightarrow> job_table s ! Suc i = job_row s i (jobs s ! i)"
  by (simp add: job_table_def nth_enumerate_eq)

lemma jobs_list_one_signalled: "jobs_list one_signalled = Done one_listed"
  by (simp add: jobs_list_def grab_pending.simps one_signalled_def one_running_def
      one_listed_def background_job_def thread_join_def update_tracker_def ppaged_def
      job_table_def job_row_def enumerate_eq_zip str_nat_digit digit_char_def str_int_80
      http_def box_def S1_def Let_def)

lemma executor_finish_one_running: "executor_finish 0 one_running = one_signalled"
  by (simp add: executor_finish_def consumer_def one_running_def one_signalled_def
      background_job_def update_tracker_def Let_def)

lemma executor_finish_shared:
  assumes "\<not> lock (heap s t)" and "consumer (heap s t) = Some JobEvents"
  shows "executor_finish t s
           = s\<lparr>heap := (heap s)(t := (heap s t)\<lparr>status := ''completed''\<rparr>),
                job_events := job_events s @ [t]\<rparr>"
  using assms by (simp add: executor_finish_def update_tracker_def Let_def)

lemma jobs_list_shown:
  assumes "jobs_list s = Done s'" and "i < length (jobs s)"
  shows "job_table s' ! Suc i =
           [''>'' @ (if jobs s ! i \<in> set (job_events s) \<or> thread (heap s (jobs s ! i)) = None
                     then Style_DIM else []) @ str_nat i,
            machine_name (machine (heap s (jobs s ! i))),
            str_int (port (service (heap s (jobs s ! i)))) @ ''/''
              @ protocol (service (heap s (jobs s ! i)))
              @ '' ('' @ service_name (service (heap s (jobs s ! i))) @ '')'',
            scanner_name (scanner (heap s (jobs s ! i))),
            status (heap s (jobs s ! i))]"
proof -
  from assms(1) obtain u where u: "grab_pending s = Done u" and s': "s' = ppaged (job_table u) u"
    by (auto simp: jobs_list_def split: outcome.splits)
  note g = grab_pending_Done [OF u]
  have j: "jobs s' = jobs s" using g s' by (simp add: ppaged_def)
  have h: "\<forall>r. heap s' r
               = (if r \<in> set (job_events s) then (heap s r)\<lparr>thread := None\<rparr> else heap s r)"
    using g s' by (simp add: ppaged_def)
  have "job_table s' ! Suc i = job_row s' i (jobs s ! i)"
    using job_table_row [of i s'] j assms(2) by simp
  then show ?thesis using h by (auto simp: job_row_def Let_def)
qed

text \<open>
  C6: \<^verbatim>\<open>jobs list\<close> never waits; it returns whenever the queued trackers are distinct
  and have started threads; it empties the shared queue, joins the thread of every
  queued tracker once, clears that handle and changes nothing else; the table it
  prints is that of the reconciled state.  A job whose signal was consumed is shown
  dimmed and with status \<open>completed\<close>, the mark its executor sets before it signals;
  the row of any other job shows the job as it was.  The executor of a job that is
  registered with the shared queue puts it there marked, so that the trackers on the
  queue are always marked.
\<close>

theorem jobs_list_reconciles:
  "jobs_list s \<noteq> Waiting x
   \<and> (distinct (job_events s)
        \<and> (\<forall>t \<in> set (job_events s). \<exists>th. thread (heap s t) = Some th \<and> started th)
        \<longrightarrow> (\<exists>u. jobs_list s = Done u))
   \<and> (jobs_list s = Done s' \<longrightarrow>
        job_events s' = [] \<and> joined s' = joined s @ job_events s \<and> jobs s' = jobs s
        \<and> (\<forall>r. heap s' r
               = (if r \<in> set (job_events s) then (heap s r)\<lparr>thread := None\<rparr> else heap s r))
        \<and> printed s' = printed s @ [Ppaged (job_table s')]
        \<and> (\<forall>i < length (jobs s).
              job_table s' ! Suc i =
                [''>'' @ (if jobs s ! i \<in> set (job_events s) \<or> thread (heap s (jobs s ! i)) = None
                          then Style_DIM else []) @ str_nat i,
                 machine_name (machine (heap s (jobs s ! i))),
                 str_int (port (service (heap s (jobs s ! i)))) @ ''/''
                   @ protocol (service (heap s (jobs s ! i)))
                   @ '' ('' @ service_name (service (heap s (jobs s ! i))) @ '')'',
                 scanner_name (scanner (heap s (jobs s ! i))),
                 status (heap s (jobs s ! i))]))
   \<and> (jobs_list s = Done s' \<and> (\<forall>r \<in> set (job_events s). status (heap s r) = ''completed'')
        \<longrightarrow> (\<forall>i < length (jobs s). jobs s ! i \<in> set (job_events s) \<longrightarrow>
               thread (heap s' (jobs s ! i)) = None
               \<and> job_table s' ! Suc i ! 0 = ''>'' @ Style_DIM @ str_nat i
               \<and> job_table s' ! Suc i ! 4 = ''completed''))
   \<and> (jobs_list s = Done s'
        \<longrightarrow> (\<forall>i < length (jobs s). jobs s ! i \<notin> set (job_events s) \<longrightarrow>
               heap s' (jobs s ! i) = heap s (jobs s ! i)
               \<and> job_table s' ! Suc i ! 4 = status (heap s (jobs s ! i))))
   \<and> (\<not> lock (heap s t) \<and> consumer (heap s t) = Some JobEvents
        \<and> (\<forall>r \<in> set (job_events s). status (heap s r) = ''completed'')
        \<longrightarrow> job_events (executor_finish t s) = job_events s @ [t]
            \<and> (\<forall>r \<in> set (job_events (executor_finish t s)).
                  status (heap (executor_finish t s) r) = ''completed''))"
proof (intro conjI impI)
  show "jobs_list s \<noteq> Waiting x"
    using grab_pending_not_waiting by (auto simp: jobs_list_def split: outcome.splits)
next
  assume "distinct (job_events s)
        \<and> (\<forall>t \<in> set (job_events s). \<exists>th. thread (heap s t) = Some th \<and> started th)"
  then obtain u where "grab_pending s = Done u" using grab_pending_returns by blast
  then show "\<exists>u. jobs_list s = Done u" by (simp add: jobs_list_def)
next
  assume a: "jobs_list s = Done s'"
  then obtain u where u: "grab_pending s = Done u" and s': "s' = ppaged (job_table u) u"
    by (auto simp: jobs_list_def split: outcome.splits)
  note g = grab_pending_Done [OF u]
  have t: "job_table s' = job_table u" using s' by (intro job_table_cong) (simp_all add: ppaged_def)
  show "job_events s' = []" using g s' by (simp add: ppaged_def)
  show "joined s' = joined s @ job_events s" using g s' by (simp add: ppaged_def)
  show "jobs s' = jobs s" using g s' by (simp add: ppaged_def)
  show h: "\<forall>r. heap s' r
               = (if r \<in> set (job_events s) then (heap s r)\<lparr>thread := None\<rparr> else heap s r)"
    using g s' by (simp add: ppaged_def)
  show "printed s' = printed s @ [Ppaged (job_table s')]"
    using g s' t by (simp add: ppaged_def)
  show "\<forall>i < length (jobs s).
              job_table s' ! Suc i =
                [''>'' @ (if jobs s ! i \<in> set (job_events s) \<or> thread (heap s (jobs s ! i)) = None
                          then Style_DIM else []) @ str_nat i,
                 machine_name (machine (heap s (jobs s ! i))),
                 str_int (port (service (heap s (jobs s ! i)))) @ ''/''
                   @ protocol (service (heap s (jobs s ! i)))
                   @ '' ('' @ service_name (service (heap s (jobs s ! i))) @ '')'',
                 scanner_name (scanner (heap s (jobs s ! i))),
                 status (heap s (jobs s ! i))]"
    using jobs_list_shown [OF a] by blast
  show "\<forall>i < length (jobs s). jobs s ! i \<notin> set (job_events s) \<longrightarrow>
               heap s' (jobs s ! i) = heap s (jobs s ! i)
               \<and> job_table s' ! Suc i ! 4 = status (heap s (jobs s ! i))"
    using h jobs_list_shown [OF a] by simp
next
  assume a: "jobs_list s = Done s' \<and> (\<forall>r \<in> set (job_events s). status (heap s r) = ''completed'')"
  then obtain u where u: "grab_pending s = Done u" and s': "s' = ppaged (job_table u) u"
    by (auto simp: jobs_list_def split: outcome.splits)
  have h: "\<forall>r. heap s' r
               = (if r \<in> set (job_events s) then (heap s r)\<lparr>thread := None\<rparr> else heap s r)"
    using grab_pending_Done [OF u] s' by (simp add: ppaged_def)
  show "\<forall>i < length (jobs s). jobs s ! i \<in> set (job_events s) \<longrightarrow>
               thread (heap s' (jobs s ! i)) = None
               \<and> job_table s' ! Suc i ! 0 = ''>'' @ Style_DIM @ str_nat i
               \<and> job_table s' ! Suc i ! 4 = ''completed''"
    using a h jobs_list_shown [of s s'] by simp
next
  assume a: "\<not> lock (heap s t) \<and> consumer (heap s t) = Some JobEvents
        \<and> (\<forall>r \<in> set (job_events s). status (heap s r) = ''completed'')"
  then have e: "executor_finish t s
           = s\<lparr>heap := (heap s)(t := (heap s t)\<lparr>status := ''completed''\<rparr>),
                job_events := job_events s @ [t]\<rparr>"
    using executor_finish_shared by blast
  show "job_events (executor_finish t s) = job_events s @ [t]" by (simp add: e)
  show "\<forall>r \<in> set (job_events (executor_finish t s)).
                  status (heap (executor_finish t s) r) = ''completed''"
    using a by (simp add: e)
qed

theorem jobs_list_reconciles_witness:
  "\<not> lock (heap one_running 0) \<and> consumer (heap one_running 0) = Some JobEvents
   \<and> executor_finish 0 one_running = one_signalled
   \<and> job_events one_signalled = [0]
   \<and> status (heap one_signalled 0) = ''completed''
   \<and> thread (heap one_signalled 0) = Some \<lparr>started = True, daemon = False\<rparr>
   \<and> jobs_list one_signalled = Done one_listed
   \<and> job_events one_listed = [] \<and> joined one_listed = [0]
   \<and> thread (heap one_listed 0) = None
   \<and> job_table one_listed ! Suc 0 ! 0 = ''>'' @ Style_DIM @ ''0''
   \<and> job_table one_listed ! Suc 0 ! 4 = ''completed''"
  using jobs_list_reconciles [of one_signalled "one_listed" one_listed 0]
    jobs_list_reconciles [of one_running "one_listed" one_listed 0]
    jobs_list_one_signalled executor_finish_one_running
  by (simp add: one_signalled_def one_running_def one_listed_def background_job_def
      consumer_def str_nat_digit digit_char_def)



subsection \<open>The drain\<close>

lemma kept_refl: "kept s s"
  by (simp add: kept_def)

lemma kept_trans: "kept s s' \<Longrightarrow> kept s' s'' \<Longrightarrow> kept s s''"
  unfolding kept_def by metis

lemma wait_jobs_kept: "kept s (fst (reached (wait_jobs s evs)))"
proof (induction s evs rule: wait_jobs.induct)
  case (1 s evs)
  show ?case
  proof (cases "length (live_jobs s) = 0")
    case True
    then show ?thesis by (subst wait_jobs.simps) (simp add: kept_refl)
  next
    case live: False
    show ?thesis
    proof (cases "job_events s")
      case (Cons t q)
      let ?s1 = "update_tracker t (\<lambda>x. x\<lparr>thread := None\<rparr>)
                  (update_tracker t (\<lambda>x. x\<lparr>status := ''completed''\<rparr>) (s\<lparr>job_events := q\<rparr>))"
      have a: "kept s ?s1" by (auto simp: kept_def update_tracker_def)
      have b: "kept ?s1 (fst (reached (wait_jobs ?s1 evs)))" using 1 live Cons by blast
      have c: "wait_jobs s evs = wait_jobs ?s1 evs"
        using live Cons by (subst wait_jobs.simps) simp
      show ?thesis using kept_trans[OF a b] c by simp
    next
      case Nil
      show ?thesis
      proof (cases evs)
        case Nil2: Nil
        then show ?thesis using live Nil by (subst wait_jobs.simps) (simp add: kept_refl)
      next
        case (Cons e rest)
        show ?thesis
        proof (cases e)
          case (Put c t)
          show ?thesis
          proof (cases "c = JobEvents")
            case True
            let ?s1 = "s\<lparr>job_events := job_events s @ [t]\<rparr>"
            have a: "kept s ?s1" by (simp add: kept_def)
            have b: "kept ?s1 (fst (reached (wait_jobs ?s1 rest)))"
              using 1 live Nil Cons Put True by blast
            have c: "wait_jobs s evs = wait_jobs ?s1 rest"
              using live Nil Cons Put True by (subst wait_jobs.simps) simp
            show ?thesis using kept_trans[OF a b] c by simp
          next
            case False
            have b: "kept s (fst (reached (wait_jobs s rest)))"
              using 1 live Nil Cons Put False by blast
            have c: "wait_jobs s evs = wait_jobs s rest"
              using live Nil Cons Put False by (subst wait_jobs.simps) simp
            show ?thesis using b c by simp
          qed
        next
          case Interrupt
          then show ?thesis using live Nil Cons by (subst wait_jobs.simps) (simp add: kept_refl)
        next
          case Suspend
          have b: "kept s (fst (reached (wait_jobs s rest)))"
            using 1 live Nil Cons Suspend by blast
          have c: "wait_jobs s evs = wait_jobs s rest"
            using live Nil Cons Suspend by (subst wait_jobs.simps) simp
          show ?thesis using b c by simp
        qed
      qed
    qed
  qed
qed

lemma fold_stop:
  "fold (\<lambda>j. update_tracker j (\<lambda>x. x\<lparr>stop := True\<rparr>)) js s
     = s\<lparr>heap := (\<lambda>r. if r \<in> set js then (heap s r)\<lparr>stop := True\<rparr> else heap s r)\<rparr>"
proof (induction js arbitrary: s)
  case Nil
  show ?case by simp
next
  case (Cons a js)
  let ?s1 = "update_tracker a (\<lambda>x. x\<lparr>stop := True\<rparr>) s"
  let ?h = "\<lambda>r. if r \<in> set (a # js) then (heap s r)\<lparr>stop := True\<rparr> else heap s r"
  have h: "(\<lambda>r. if r \<in> set js then (heap ?s1 r)\<lparr>stop := True\<rparr> else heap ?s1 r) = ?h"
    by (auto simp: fun_eq_iff update_tracker_def)
  have "fold (\<lambda>j. update_tracker j (\<lambda>x. x\<lparr>stop := True\<rparr>)) (a # js) s
          = ?s1\<lparr>heap := (\<lambda>r. if r \<in> set js then (heap ?s1 r)\<lparr>stop := True\<rparr> else heap ?s1 r)\<rparr>"
    by (simp add: Cons)
  also have "\<dots> = ?s1\<lparr>heap := ?h\<rparr>" by (simp only: h)
  also have "\<dots> = s\<lparr>heap := ?h\<rparr>" by (simp add: update_tracker_def)
  finally show ?case .
qed

lemma stop_all_eq:
  "stop_all s = s\<lparr>heap := (\<lambda>r. if r \<in> set (jobs s) then (heap s r)\<lparr>stop := True\<rparr> else heap s r)\<rparr>"
  by (simp add: stop_all_def fold_stop)

lemma stop_all_kept: "kept s (stop_all s)"
  by (simp add: stop_all_eq kept_def)

lemma force_exit_kept: "kept s (reached (force_exit js s))"
proof (induction js arbitrary: s)
  case Nil
  then show ?case by (simp add: kept_refl)
next
  case (Cons j js)
  show ?case
  proof (cases "thread (heap s j)")
    case None
    then show ?thesis by (simp add: kept_refl)
  next
    case (Some th)
    show ?thesis
    proof (cases "started th")
      case True
      then show ?thesis using Some by (simp add: set_daemon_def kept_refl)
    next
      case False
      let ?s1 = "update_tracker j (\<lambda>x. x\<lparr>thread := Some (th\<lparr>daemon := True\<rparr>)\<rparr>) s"
      have a: "kept s ?s1" by (auto simp: kept_def update_tracker_def)
      show ?thesis using False Some kept_trans[OF a Cons[of ?s1]] by (simp add: set_daemon_def)
    qed
  qed
qed

lemma main_drain_kept: "kept s (fst (reached (main_drain s evs)))"
proof -
  let ?s0 = "if length (live_jobs s) \<noteq> 0
             then poutput ''waiting for background jobs to complete'' s else s"
  have k0: "kept s ?s0" by (simp add: kept_def poutput_def)
  have k1: "kept ?s0 (fst (reached (wait_jobs ?s0 evs)))" by (rule wait_jobs_kept)
  show ?thesis
  proof (cases "wait_jobs ?s0 evs")
    case (Done x)
    then have "main_drain s evs = Done x" by (simp add: main_drain_def Let_def)
    then show ?thesis using kept_trans[OF k0 k1] Done by simp
  next
    case (Waiting x)
    then have "main_drain s evs = Waiting x" by (simp add: main_drain_def Let_def)
    then show ?thesis using kept_trans[OF k0 k1] Waiting by simp
  next
    case (Raised e x)
    obtain s1 evs1 where x: "x = (s1, evs1)" by (cases x)
    have k01: "kept s s1" using kept_trans[OF k0 k1] Raised x by simp
    show ?thesis
    proof (cases "e = KeyboardInterrupt")
      case False
      then have "main_drain s evs = Raised e (s1, evs1)"
        using Raised x by (simp add: main_drain_def Let_def)
      then show ?thesis using k01 by simp
    next
      case True
      let ?s2 = "stop_all (pwarning ''cancelling background jobs'' s1)"
      have k2: "kept s1 ?s2"
        by (rule kept_trans[OF _ stop_all_kept]) (simp add: kept_def pwarning_def)
      have k3: "kept ?s2 (fst (reached (wait_jobs ?s2 evs1)))" by (rule wait_jobs_kept)
      have k03: "kept s (fst (reached (wait_jobs ?s2 evs1)))"
        using kept_trans[OF k01 kept_trans[OF k2 k3]] .
      show ?thesis
      proof (cases "wait_jobs ?s2 evs1")
        case (Done y)
        then have "main_drain s evs = Done y"
          using Raised x True by (simp add: main_drain_def Let_def)
        then show ?thesis using k03 Done by simp
      next
        case (Waiting y)
        then have "main_drain s evs = Waiting y"
          using Raised x True by (simp add: main_drain_def Let_def)
        then show ?thesis using k03 Waiting by simp
      next
        case R2: (Raised e' y)
        obtain s3 evs2 where y: "y = (s3, evs2)" by (cases y)
        have k033: "kept s s3" using k03 R2 y by simp
        show ?thesis
        proof (cases "e' = KeyboardInterrupt")
          case False
          then have "main_drain s evs = Raised e' (s3, evs2)"
            using Raised x True R2 y by (simp add: main_drain_def Let_def)
          then show ?thesis using k033 by simp
        next
          case T2: True
          let ?s4 = "pwarning ''forcing background job exit!'' s3"
          have k4: "kept s3 ?s4" by (simp add: kept_def pwarning_def)
          have k5: "kept ?s4 (reached (force_exit (live_jobs ?s4) ?s4))" by (rule force_exit_kept)
          have "fst (reached (main_drain s evs)) = reached (force_exit (live_jobs ?s4) ?s4)"
            using Raised x True R2 y T2
            by (simp add: main_drain_def Let_def split: outcome.splits)
          then show ?thesis using kept_trans[OF k033 kept_trans[OF k4 k5]] by simp
        qed
      qed
    qed
  qed
qed


lemma wait_jobs_receives:
  "(thread (heap s t) = None \<and> status (heap s t) = ''completed'')
     \<or> (t \<in> set (job_events s) \<and> t \<in> set (jobs s) \<and> thread (heap s t) \<noteq> None) \<Longrightarrow>
   thread (heap (fst (reached (wait_jobs s evs))) t) = None
     \<and> status (heap (fst (reached (wait_jobs s evs))) t) = ''completed''"
proof (induction s evs rule: wait_jobs.induct)
  case (1 s evs)
  show ?case
  proof (cases "length (live_jobs s) = 0")
    case True
    then have "wait_jobs s evs = Done (s, evs)" by (subst wait_jobs.simps) simp
    moreover have "thread (heap s t) = None \<and> status (heap s t) = ''completed''"
      using "1.prems" True by (auto simp: live_jobs_def filter_empty_conv)
    ultimately show ?thesis by simp
  next
    case live: False
    show ?thesis
    proof (cases "job_events s")
      case (Cons t' q)
      let ?s1 = "update_tracker t' (\<lambda>x. x\<lparr>thread := None\<rparr>)
                  (update_tracker t' (\<lambda>x. x\<lparr>status := ''completed''\<rparr>) (s\<lparr>job_events := q\<rparr>))"
      have p: "(thread (heap ?s1 t) = None \<and> status (heap ?s1 t) = ''completed'')
         \<or> (t \<in> set (job_events ?s1) \<and> t \<in> set (jobs ?s1) \<and> thread (heap ?s1 t) \<noteq> None)"
        using "1.prems" Cons by (auto simp: update_tracker_def)
      have c: "wait_jobs s evs = wait_jobs ?s1 evs"
        using live Cons by (subst wait_jobs.simps) simp
      show ?thesis using 1 live Cons p c by simp
    next
      case Nil
      have d: "thread (heap s t) = None \<and> status (heap s t) = ''completed''"
        using "1.prems" Nil by auto
      show ?thesis
      proof (cases evs)
        case Nil2: Nil
        then show ?thesis using live Nil d by (subst wait_jobs.simps, simp)+
      next
        case (Cons e rest)
        show ?thesis
        proof (cases e)
          case (Put c t')
          show ?thesis
          proof (cases "c = JobEvents")
            case True
            let ?s1 = "s\<lparr>job_events := job_events s @ [t']\<rparr>"
            have c: "wait_jobs s evs = wait_jobs ?s1 rest"
              using live Nil Cons Put True by (subst wait_jobs.simps) simp
            have "thread (heap (fst (reached (wait_jobs ?s1 rest))) t) = None
               \<and> status (heap (fst (reached (wait_jobs ?s1 rest))) t) = ''completed''"
              using 1 live Nil Cons Put True d by simp
            then show ?thesis using c by simp
          next
            case False
            have c: "wait_jobs s evs = wait_jobs s rest"
              using live Nil Cons Put False by (subst wait_jobs.simps) simp
            have "thread (heap (fst (reached (wait_jobs s rest))) t) = None
               \<and> status (heap (fst (reached (wait_jobs s rest))) t) = ''completed''"
              using 1 live Nil Cons Put False d by simp
            then show ?thesis using c by simp
          qed
        next
          case Interrupt
          then show ?thesis using live Nil Cons d by (subst wait_jobs.simps, simp)+
        next
          case Suspend
          have c: "wait_jobs s evs = wait_jobs s rest"
            using live Nil Cons Suspend by (subst wait_jobs.simps) simp
          have "thread (heap (fst (reached (wait_jobs s rest))) t) = None
               \<and> status (heap (fst (reached (wait_jobs s rest))) t) = ''completed''"
            using 1 live Nil Cons Suspend d by simp
          then show ?thesis using c by simp
        qed
      qed
    qed
  qed
qed

lemma force_exit_received:
  "thread (heap s t) = None \<and> status (heap s t) = ''completed'' \<Longrightarrow>
   thread (heap (reached (force_exit js s)) t) = None
     \<and> status (heap (reached (force_exit js s)) t) = ''completed''"
proof (induction js arbitrary: s)
  case Nil
  then show ?case by simp
next
  case (Cons j js)
  show ?case
  proof (cases "thread (heap s j)")
    case None
    then show ?thesis using Cons.prems by simp
  next
    case (Some th)
    then have ne: "j \<noteq> t" using Cons.prems by auto
    show ?thesis
    proof (cases "started th")
      case True
      then show ?thesis using Some Cons.prems by (simp add: set_daemon_def)
    next
      case False
      let ?s1 = "update_tracker j (\<lambda>x. x\<lparr>thread := Some (th\<lparr>daemon := True\<rparr>)\<rparr>) s"
      have "thread (heap ?s1 t) = None \<and> status (heap ?s1 t) = ''completed''"
        using Cons.prems ne by (simp add: update_tracker_def)
      from Cons.IH [OF this] show ?thesis using False Some by (simp add: set_daemon_def)
    qed
  qed
qed

lemma main_drain_done:
  assumes "thread (heap (fst (reached (wait_jobs
              (if length (live_jobs s) \<noteq> 0
               then poutput ''waiting for background jobs to complete'' s else s) evs))) t) = None
           \<and> status (heap (fst (reached (wait_jobs
              (if length (live_jobs s) \<noteq> 0
               then poutput ''waiting for background jobs to complete'' s else s) evs))) t)
               = ''completed''"
  shows "thread (heap (fst (reached (main_drain s evs))) t) = None
     \<and> status (heap (fst (reached (main_drain s evs))) t) = ''completed''"
proof -
  let ?D = "\<lambda>u. thread (heap u t) = None \<and> status (heap u t) = ''completed''"
  let ?s0 = "if length (live_jobs s) \<noteq> 0
             then poutput ''waiting for background jobs to complete'' s else s"
  have d1: "?D (fst (reached (wait_jobs ?s0 evs)))"
    using assms by simp
  show ?thesis
  proof (cases "wait_jobs ?s0 evs")
    case (Done x)
    then have "main_drain s evs = Done x" by (simp add: main_drain_def Let_def)
    then show ?thesis using d1 Done by simp
  next
    case (Waiting x)
    then have "main_drain s evs = Waiting x" by (simp add: main_drain_def Let_def)
    then show ?thesis using d1 Waiting by simp
  next
    case (Raised e x)
    obtain s1 evs1 where x: "x = (s1, evs1)" by (cases x)
    have d01: "?D s1" using d1 Raised x by simp
    show ?thesis
    proof (cases "e = KeyboardInterrupt")
      case False
      then have "main_drain s evs = Raised e (s1, evs1)"
        using Raised x by (simp add: main_drain_def Let_def)
      then show ?thesis using d01 by simp
    next
      case True
      let ?s2 = "stop_all (pwarning ''cancelling background jobs'' s1)"
      have d2: "?D ?s2" using d01 by (simp add: stop_all_eq pwarning_def)
      have d3: "?D (fst (reached (wait_jobs ?s2 evs1)))"
        by (rule wait_jobs_receives) (use d2 in blast)
      show ?thesis
      proof (cases "wait_jobs ?s2 evs1")
        case (Done y)
        then have "main_drain s evs = Done y"
          using Raised x True by (simp add: main_drain_def Let_def)
        then show ?thesis using d3 Done by simp
      next
        case (Waiting y)
        then have "main_drain s evs = Waiting y"
          using Raised x True by (simp add: main_drain_def Let_def)
        then show ?thesis using d3 Waiting by simp
      next
        case R2: (Raised e' y)
        obtain s3 evs2 where y: "y = (s3, evs2)" by (cases y)
        have d33: "?D s3" using d3 R2 y by simp
        show ?thesis
        proof (cases "e' = KeyboardInterrupt")
          case False
          then have "main_drain s evs = Raised e' (s3, evs2)"
            using Raised x True R2 y by (simp add: main_drain_def Let_def)
          then show ?thesis using d33 by simp
        next
          case T2: True
          let ?s4 = "pwarning ''forcing background job exit!'' s3"
          have d4: "?D ?s4" using d33 by (simp add: pwarning_def)
          have "fst (reached (main_drain s evs)) = reached (force_exit (live_jobs ?s4) ?s4)"
            using Raised x True R2 y T2
            by (simp add: main_drain_def Let_def split: outcome.splits)
          then show ?thesis using force_exit_received [OF d4] by simp
        qed
      qed
    qed
  qed
qed

lemma main_drain_receives:
  assumes "t \<in> set (job_events s)" and "t \<in> set (jobs s)" and "thread (heap s t) \<noteq> None"
  shows "thread (heap (fst (reached (main_drain s evs))) t) = None
     \<and> status (heap (fst (reached (main_drain s evs))) t) = ''completed''"
proof (rule main_drain_done, rule wait_jobs_receives)
  show "(thread (heap (if length (live_jobs s) \<noteq> 0
                      then poutput ''waiting for background jobs to complete'' s else s) t) = None
         \<and> status (heap (if length (live_jobs s) \<noteq> 0
                      then poutput ''waiting for background jobs to complete'' s else s) t)
             = ''completed'')
     \<or> (t \<in> set (job_events (if length (live_jobs s) \<noteq> 0
                      then poutput ''waiting for background jobs to complete'' s else s))
        \<and> t \<in> set (jobs (if length (live_jobs s) \<noteq> 0
                      then poutput ''waiting for background jobs to complete'' s else s))
        \<and> thread (heap (if length (live_jobs s) \<noteq> 0
                      then poutput ''waiting for background jobs to complete'' s else s) t) \<noteq> None)"
    using assms by (simp add: poutput_def)
qed

lemma wait_jobs_receives_put:
  "t \<in> set (jobs s) \<Longrightarrow> thread (heap s t) \<noteq> None \<Longrightarrow>
   thread (heap (fst (reached (wait_jobs s (Put JobEvents t # rest)))) t) = None
     \<and> status (heap (fst (reached (wait_jobs s (Put JobEvents t # rest)))) t) = ''completed''"
proof (induction q \<equiv> "job_events s" arbitrary: s)
  case Nil
  then have live: "length (live_jobs s) \<noteq> 0"
    by (auto simp: live_jobs_def filter_empty_conv)
  let ?s1 = "s\<lparr>job_events := job_events s @ [t]\<rparr>"
  have "wait_jobs s (Put JobEvents t # rest) = wait_jobs ?s1 rest"
    using live Nil(1) by (subst wait_jobs.simps) simp
  moreover have "thread (heap (fst (reached (wait_jobs ?s1 rest))) t) = None
     \<and> status (heap (fst (reached (wait_jobs ?s1 rest))) t) = ''completed''"
    by (rule wait_jobs_receives) (use Nil in simp)
  ultimately show ?case by simp
next
  case (Cons t' q)
  then have live: "length (live_jobs s) \<noteq> 0"
    by (auto simp: live_jobs_def filter_empty_conv)
  from Cons(2) have e: "job_events s = t' # q" by simp
  let ?s1 = "update_tracker t' (\<lambda>x. x\<lparr>thread := None\<rparr>)
              (update_tracker t' (\<lambda>x. x\<lparr>status := ''completed''\<rparr>) (s\<lparr>job_events := q\<rparr>))"
  have c: "wait_jobs s (Put JobEvents t # rest) = wait_jobs ?s1 (Put JobEvents t # rest)"
    using live e by (subst wait_jobs.simps) simp
  have "thread (heap (fst (reached (wait_jobs ?s1 (Put JobEvents t # rest)))) t) = None
     \<and> status (heap (fst (reached (wait_jobs ?s1 (Put JobEvents t # rest)))) t) = ''completed''"
  proof (cases "t' = t")
    case True
    show ?thesis by (rule wait_jobs_receives) (simp add: True update_tracker_def)
  next
    case False
    show ?thesis
      by (rule Cons(1)) (use Cons(3,4) False in \<open>simp_all add: update_tracker_def\<close>)
  qed
  then show ?case using c by simp
qed

lemma main_drain_receives_put:
  assumes "t \<in> set (jobs s)" and "thread (heap s t) \<noteq> None"
  shows "thread (heap (fst (reached (main_drain s (Put JobEvents t # rest)))) t) = None
     \<and> status (heap (fst (reached (main_drain s (Put JobEvents t # rest)))) t) = ''completed''"
  by (rule main_drain_done, rule wait_jobs_receives_put) (use assms in \<open>simp_all add: poutput_def\<close>)

lemma force_exit_started:
  "thread (heap s j) = Some th \<Longrightarrow> started th \<Longrightarrow> force_exit (j # js) s = Raised RuntimeError s"
  by (simp add: set_daemon_def)

text \<open>
  What the drain does up to the second C-c: a wait that returns leaves no live handle,
  the first C-c sets the stop flag of every job of the table and touches neither
  handles nor status, and the wait then goes on until the signals have arrived.
\<close>

lemma wait_jobs_Done_live:
  "wait_jobs s evs = Done (s', r) \<Longrightarrow> live_jobs s' = []"
proof (induction s evs rule: wait_jobs.induct)
  case (1 s evs)
  show ?case
  proof (cases "length (live_jobs s) = 0")
    case True
    with 1(5) show ?thesis by (subst (asm) wait_jobs.simps) simp
  next
    case False
    with 1 show ?thesis
      by (subst (asm) (5) wait_jobs.simps)
         (auto split: list.splits event.splits if_splits)
  qed
qed

lemma stop_all_sets:
  "j \<in> set (jobs s) \<Longrightarrow> stop (heap (stop_all s) j)"
  "thread (heap (stop_all s) r) = thread (heap s r)"
  "status (heap (stop_all s) r) = status (heap s r)"
  "jobs (stop_all s) = jobs s"
  by (simp_all add: stop_all_eq)

lemma main_drain_first_interrupt:
  "main_drain one_running [Interrupt, Put JobEvents 0]
     = Done (one_running\<lparr>heap := (heap one_running)
                 (0 := background_job\<lparr>stop := True, status := ''completed'', thread := None\<rparr>),
               printed := [Poutput ''waiting for background jobs to complete'',
                           Pwarning ''cancelling background jobs'']\<rparr>, [])"
  by (simp add: main_drain_def wait_jobs.simps live_jobs_def one_running_def background_job_def
      Let_def stop_all_def update_tracker_def poutput_def pwarning_def)

text \<open>
  C4 at the failing input: one background job with a started thread, an empty queue,
  and C-c pressed twice.  The first C-c sets the stop flag and the wait goes on; at the
  second C-c the assignment \<^verbatim>\<open>j.thread.daemon = True\<close> raises \<^verbatim>\<open>RuntimeError\<close>, and the
  handle is left as it was, not daemonic.
\<close>

theorem main_drain_second_interrupt:
  "main_drain one_running [Interrupt, Interrupt]
     = Raised RuntimeError
         (one_running\<lparr>heap := (heap one_running)(0 := background_job\<lparr>stop := True\<rparr>),
            printed := [Poutput ''waiting for background jobs to complete'',
                        Pwarning ''cancelling background jobs'',
                        Pwarning ''forcing background job exit!'']\<rparr>, [])
   \<and> thread (background_job\<lparr>stop := True\<rparr>) = Some \<lparr>started = True, daemon = False\<rparr>"
  by (simp add: main_drain_def wait_jobs.simps live_jobs_def one_running_def background_job_def
      Let_def stop_all_def update_tracker_def poutput_def pwarning_def set_daemon_def)

subsection \<open>Watching a job\<close>

lemma await_local_passes:
  "list_all (passes_by q) pre \<Longrightarrow>
   await_local q s (pre @ evs)
     = await_local q (s\<lparr>job_events := job_events s @ shared_puts pre\<rparr>) evs"
proof (induction pre arbitrary: s)
  case Nil
  show ?case by simp
next
  case (Cons e pre)
  then show ?case by (cases e) auto
qed

lemma monitor_scan_completed:
  assumes "lock (heap s tracker)" and "list_all (passes_by (LocalQueue (next_queue s))) pre"
  shows "monitor_scan tracker s (pre @ Put (LocalQueue (next_queue s)) t # evs) =
           Done (s\<lparr>next_queue := Suc (next_queue s),
                   heap := (heap s)(tracker := (heap s tracker)
                             \<lparr>tracker_job_events := Some (LocalQueue (next_queue s)),
                              lock := False\<rparr>),
                   job_events := job_events s @ shared_puts pre\<rparr>,
                 evs)"
  using assms
  by (auto simp: monitor_scan_def Let_def update_tracker_def fun_eq_iff await_local_passes
        intro!: state.equality tracker.equality)

lemma monitor_scan_suspend:
  assumes "lock (heap s tracker)" and "list_all (passes_by (LocalQueue (next_queue s))) pre"
  shows "monitor_scan tracker s (pre @ Suspend # evs) =
           Done (s\<lparr>next_queue := Suc (next_queue s),
                   heap := (heap s)(tracker := (heap s tracker)
                             \<lparr>tracker_job_events := Some (LocalQueue (next_queue s)),
                              lock := False, silent := True, events := Some JobEvents\<rparr>),
                   printed := printed s @ [Pwarning (''backgrounding '' @ job_label (heap s tracker))],
                   jobs := jobs s @ [tracker],
                   job_events := job_events s @ shared_puts pre\<rparr>,
                 evs)"
  using assms
  by (auto simp: monitor_scan_def Let_def update_tracker_def pwarning_def job_label_def fun_eq_iff
        await_local_passes intro!: state.equality tracker.equality)

lemma monitor_scan_watched:
  "monitor_scan 0 watched ([Put (LocalQueue 9) 3] @ Suspend # []) = Done (watched_detached, [])"
  by (simp add: monitor_scan_def watched_def watched_detached_def idle_def created_job_def
      Let_def update_tracker_def pwarning_def job_label_def S1_def http_def str_int_80)

text \<open>
  C3, as amended: on C-c while a job is watched (after any events that only concern
  other queues), the monitor prints the cancellation warning, sets the stop flag of
  the job and returns at once: it consumes no further event, does not wait for the
  completion signal, and neither registers another consumer nor adds the job to the job
  table.
\<close>

theorem monitor_scan_interrupt:
  assumes "lock (heap s tracker)" and "list_all (passes_by (LocalQueue (next_queue s))) pre"
  shows "monitor_scan tracker s (pre @ Interrupt # evs) =
           Done (s\<lparr>next_queue := Suc (next_queue s),
                   heap := (heap s)(tracker := (heap s tracker)
                             \<lparr>tracker_job_events := Some (LocalQueue (next_queue s)),
                              lock := False, stop := True\<rparr>),
                   printed := printed s @ [Pwarning (''cancelling '' @ job_label (heap s tracker))],
                   job_events := job_events s @ shared_puts pre\<rparr>,
                 evs)"
  using assms
  by (auto simp: monitor_scan_def Let_def update_tracker_def pwarning_def job_label_def fun_eq_iff
        await_local_passes intro!: state.equality tracker.equality)

theorem monitor_scan_interrupt_witness:
  "lock (heap watched 0)
   \<and> list_all (passes_by (LocalQueue (next_queue watched))) [Put JobEvents 5]
   \<and> monitor_scan 0 watched ([Put JobEvents 5] @ Interrupt # [Put (LocalQueue 0) 0])
       = Done (watched\<lparr>next_queue := 1,
                 heap := (heap watched)(0 := created_job
                           \<lparr>tracker_job_events := Some (LocalQueue 0), lock := False,
                            stop := True\<rparr>),
                 printed := [Pwarning ''cancelling S1 for 80/tcp''],
                 job_events := [5]\<rparr>, [Put (LocalQueue 0) 0])"
  using monitor_scan_interrupt [of watched 0 "[Put JobEvents 5]" "[Put (LocalQueue 0) 0]"]
  by (simp add: watched_def idle_def created_job_def job_label_def S1_def http_def str_int_80)

text \<open>
  The claim as stated fails: after C-c the monitor has returned although the completion
  signal of the watched job, the next event, has not been received.
\<close>

theorem monitor_scan_interrupt_counterexample:
  "monitor_scan 0 watched [Interrupt, Put (LocalQueue 0) 0]
     = Done (watched\<lparr>heap := (heap watched)(0 := created_job
                         \<lparr>tracker_job_events := Some (LocalQueue 0), lock := False,
                          stop := True\<rparr>),
               printed := [Pwarning ''cancelling S1 for 80/tcp''], next_queue := 1\<rparr>,
             [Put (LocalQueue 0) 0])"
  by (simp add: monitor_scan_def watched_def idle_def created_job_def Let_def update_tracker_def
      pwarning_def job_label_def S1_def http_def str_int_80)

lemma executor_finish_watched: "executor_finish 0 watched_detached = watched_signalled"
  by (simp add: executor_finish_def consumer_def watched_detached_def watched_signalled_def
      watched_def idle_def created_job_def update_tracker_def Let_def)

lemma main_drain_watched: "main_drain watched_signalled [] = Done (watched_drained, [])"
  by (simp add: main_drain_def wait_jobs.simps live_jobs_def watched_detached_def
      watched_signalled_def watched_drained_def watched_def idle_def created_job_def Let_def
      update_tracker_def poutput_def)

lemma main_drain_arriving:
  "main_drain watched_detached [Put JobEvents 0] = Done (watched_drained, [])"
  by (simp add: main_drain_def wait_jobs.simps live_jobs_def watched_detached_def
      watched_drained_def watched_def idle_def created_job_def Let_def
      update_tracker_def poutput_def)

lemma jobs_list_watched: "jobs_list watched_signalled = Done watched_listed"
  by (simp add: jobs_list_def grab_pending.simps watched_signalled_def watched_detached_def
      watched_listed_def watched_def idle_def created_job_def thread_join_def update_tracker_def
      ppaged_def job_table_def job_row_def enumerate_eq_zip str_nat_digit digit_char_def
      str_int_80 http_def box_def S1_def Let_def)

text \<open>
  C2: on C-z while a job is watched (after any events that only concern other queues),
  the monitor marks the job silent, registers the shared queue of the job table as the
  consumer of the job, appends the job once to the job table and returns without
  consuming another event.  The job stays in the job table under the drain and under
  \<^verbatim>\<open>jobs list\<close>.  When its executor finishes, the job is marked completed and its
  signal is on the shared queue; the drain then receives it, and so does
  \<^verbatim>\<open>jobs list\<close>: the handle is cleared and the status is \<open>completed\<close>.  The same holds
  of a signal that arrives on the shared queue while the drain waits.
\<close>

theorem monitor_scan_detach:
  assumes "lock (heap s tracker)" and "list_all (passes_by (LocalQueue (next_queue s))) pre"
  shows "monitor_scan tracker s (pre @ Suspend # evs) =
           Done (s\<lparr>next_queue := Suc (next_queue s),
                   heap := (heap s)(tracker := (heap s tracker)
                             \<lparr>tracker_job_events := Some (LocalQueue (next_queue s)),
                              lock := False, silent := True, events := Some JobEvents\<rparr>),
                   printed := printed s @ [Pwarning (''backgrounding '' @ job_label (heap s tracker))],
                   jobs := jobs s @ [tracker],
                   job_events := job_events s @ shared_puts pre\<rparr>,
                 evs)
         \<and> (\<forall>s'. monitor_scan tracker s (pre @ Suspend # evs) = Done (s', evs) \<longrightarrow>
              consumer (heap s' tracker) = Some JobEvents
              \<and> count_list (jobs s') tracker = Suc (count_list (jobs s) tracker)
              \<and> (\<forall>evs'. tracker \<in> set (jobs (fst (reached (main_drain s' evs')))))
              \<and> (\<forall>u. jobs_list s' = Done u \<longrightarrow> tracker \<in> set (jobs u))
              \<and> job_events (executor_finish tracker s') = job_events s' @ [tracker]
              \<and> jobs (executor_finish tracker s') = jobs s'
              \<and> status (heap (executor_finish tracker s') tracker) = ''completed'')
         \<and> (\<forall>s' evs' u. monitor_scan tracker s (pre @ Suspend # evs) = Done (s', evs)
                \<and> thread (heap s tracker) \<noteq> None
                \<and> u = fst (reached (main_drain (executor_finish tracker s') evs')) \<longrightarrow>
              tracker \<in> set (jobs u) \<and> thread (heap u tracker) = None
              \<and> status (heap u tracker) = ''completed'')
         \<and> (\<forall>s' rest u. monitor_scan tracker s (pre @ Suspend # evs) = Done (s', evs)
                \<and> thread (heap s tracker) \<noteq> None
                \<and> u = fst (reached (main_drain s' (Put JobEvents tracker # rest))) \<longrightarrow>
              tracker \<in> set (jobs u) \<and> thread (heap u tracker) = None
              \<and> status (heap u tracker) = ''completed'')
         \<and> (\<forall>s' u. monitor_scan tracker s (pre @ Suspend # evs) = Done (s', evs)
                \<and> jobs_list (executor_finish tracker s') = Done u \<longrightarrow>
              tracker \<in> set (jobs u) \<and> thread (heap u tracker) = None
              \<and> status (heap u tracker) = ''completed'')"
proof -
  define d where "d = s\<lparr>next_queue := Suc (next_queue s),
                   heap := (heap s)(tracker := (heap s tracker)
                             \<lparr>tracker_job_events := Some (LocalQueue (next_queue s)),
                              lock := False, silent := True, events := Some JobEvents\<rparr>),
                   printed := printed s @ [Pwarning (''backgrounding '' @ job_label (heap s tracker))],
                   jobs := jobs s @ [tracker],
                   job_events := job_events s @ shared_puts pre\<rparr>"
  have m: "monitor_scan tracker s (pre @ Suspend # evs) = Done (d, evs)"
    unfolding d_def by (rule monitor_scan_suspend [OF assms])
  have c: "\<not> lock (heap d tracker)" "consumer (heap d tracker) = Some JobEvents"
    by (simp_all add: consumer_def d_def)
  have dj: "jobs d = jobs s @ [tracker]" "thread (heap d tracker) = thread (heap s tracker)"
    by (simp_all add: d_def)
  note e = executor_finish_shared [OF c]
  define f where "f = executor_finish tracker d"
  have f: "tracker \<in> set (job_events f)" "tracker \<in> set (jobs f)" "jobs f = jobs d"
    "status (heap f tracker) = ''completed''" "thread (heap f tracker) = thread (heap s tracker)"
    "job_events f = job_events d @ [tracker]"
    using dj by (simp_all add: f_def e)
  have a: "consumer (heap d tracker) = Some JobEvents
              \<and> count_list (jobs d) tracker = Suc (count_list (jobs s) tracker)
              \<and> (\<forall>evs'. tracker \<in> set (jobs (fst (reached (main_drain d evs')))))
              \<and> (\<forall>u. jobs_list d = Done u \<longrightarrow> tracker \<in> set (jobs u))
              \<and> job_events f = job_events d @ [tracker]
              \<and> jobs f = jobs d
              \<and> status (heap f tracker) = ''completed''"
  proof (intro conjI allI impI)
    show "consumer (heap d tracker) = Some JobEvents" by (rule c)
    show "count_list (jobs d) tracker = Suc (count_list (jobs s) tracker)" by (simp add: dj)
    show "tracker \<in> set (jobs (fst (reached (main_drain d evs'))))" for evs'
      using main_drain_kept [of d evs'] dj by (simp add: kept_def)
    show "tracker \<in> set (jobs u)" if "jobs_list d = Done u" for u
    proof -
      from that obtain v where v: "grab_pending d = Done v" and u: "u = ppaged (job_table v) v"
        by (auto simp: jobs_list_def split: outcome.splits)
      show ?thesis using grab_pending_Done [OF v] u dj by (simp add: ppaged_def)
    qed
    show "job_events f = job_events d @ [tracker]" by (rule f)
    show "jobs f = jobs d" by (rule f)
    show "status (heap f tracker) = ''completed''" by (rule f)
  qed
  have b: "tracker \<in> set (jobs u) \<and> thread (heap u tracker) = None
              \<and> status (heap u tracker) = ''completed''"
    if "thread (heap s tracker) \<noteq> None" "u = fst (reached (main_drain f evs'))" for evs' u
  proof -
    have "thread (heap f tracker) \<noteq> None" using that(1) f by simp
    from main_drain_receives [OF f(1) f(2) this, of evs']
    have "thread (heap u tracker) = None \<and> status (heap u tracker) = ''completed''"
      using that(2) by simp
    moreover have "tracker \<in> set (jobs u)"
      using main_drain_kept [of f evs'] that(2) f by (simp add: kept_def)
    ultimately show ?thesis by simp
  qed
  have b': "tracker \<in> set (jobs u) \<and> thread (heap u tracker) = None
              \<and> status (heap u tracker) = ''completed''"
    if "thread (heap s tracker) \<noteq> None"
      "u = fst (reached (main_drain d (Put JobEvents tracker # rest)))" for rest u
  proof -
    have "tracker \<in> set (jobs d)" "thread (heap d tracker) \<noteq> None" using that(1) dj by simp_all
    from main_drain_receives_put [OF this, of rest]
    have "thread (heap u tracker) = None \<and> status (heap u tracker) = ''completed''"
      using that(2) by simp
    moreover have "tracker \<in> set (jobs u)"
      using main_drain_kept [of d "Put JobEvents tracker # rest"] that(2) dj
      by (simp add: kept_def)
    ultimately show ?thesis by simp
  qed
  have l: "tracker \<in> set (jobs u) \<and> thread (heap u tracker) = None
              \<and> status (heap u tracker) = ''completed''"
    if "jobs_list f = Done u" for u
  proof -
    from that obtain v where v: "grab_pending f = Done v" and u: "u = ppaged (job_table v) v"
      by (auto simp: jobs_list_def split: outcome.splits)
    show ?thesis using grab_pending_Done [OF v] u f by (simp add: ppaged_def)
  qed
  have b2: "\<forall>evs' u. thread (heap s tracker) \<noteq> None
                \<and> u = fst (reached (main_drain f evs')) \<longrightarrow>
              tracker \<in> set (jobs u) \<and> thread (heap u tracker) = None
              \<and> status (heap u tracker) = ''completed''"
  proof (intro allI impI, elim conjE)
    fix evs' u
    assume "thread (heap s tracker) \<noteq> None" "u = fst (reached (main_drain f evs'))"
    then show "tracker \<in> set (jobs u) \<and> thread (heap u tracker) = None
              \<and> status (heap u tracker) = ''completed''" by (rule b)
  qed
  have b3: "\<forall>rest u. thread (heap s tracker) \<noteq> None
                \<and> u = fst (reached (main_drain d (Put JobEvents tracker # rest))) \<longrightarrow>
              tracker \<in> set (jobs u) \<and> thread (heap u tracker) = None
              \<and> status (heap u tracker) = ''completed''"
  proof (intro allI impI, elim conjE)
    fix rest u
    assume "thread (heap s tracker) \<noteq> None"
      "u = fst (reached (main_drain d (Put JobEvents tracker # rest)))"
    then show "tracker \<in> set (jobs u) \<and> thread (heap u tracker) = None
              \<and> status (heap u tracker) = ''completed''" by (rule b')
  qed
  have l2: "\<forall>u. jobs_list f = Done u \<longrightarrow>
              tracker \<in> set (jobs u) \<and> thread (heap u tracker) = None
              \<and> status (heap u tracker) = ''completed''"
  proof (intro allI impI)
    fix u
    assume "jobs_list f = Done u"
    then show "tracker \<in> set (jobs u) \<and> thread (heap u tracker) = None
              \<and> status (heap u tracker) = ''completed''" by (rule l)
  qed
  show ?thesis
    unfolding d_def [symmetric] m
    apply (rule conjI)
     apply (rule refl)
    apply (rule conjI)
    subgoal using a unfolding f_def by simp
    apply (rule conjI)
    subgoal using b2 unfolding f_def by simp
    apply (rule conjI)
    subgoal using b3 by simp
    subgoal using l2 unfolding f_def by simp
    done
qed

theorem monitor_scan_detach_witness:
  "lock (heap watched 0)
   \<and> list_all (passes_by (LocalQueue (next_queue watched))) [Put (LocalQueue 9) 3]
   \<and> monitor_scan 0 watched ([Put (LocalQueue 9) 3] @ Suspend # []) = Done (watched_detached, [])
   \<and> consumer (heap watched_detached 0) = Some JobEvents
   \<and> executor_finish 0 watched_detached = watched_signalled
   \<and> thread (heap watched 0) \<noteq> None
   \<and> main_drain watched_signalled [] = Done (watched_drained, [])
   \<and> main_drain watched_detached [Put JobEvents 0] = Done (watched_drained, [])
   \<and> 0 \<in> set (jobs watched_drained)
   \<and> thread (heap watched_drained 0) = None
   \<and> status (heap watched_drained 0) = ''completed''
   \<and> jobs_list watched_signalled = Done watched_listed
   \<and> 0 \<in> set (jobs watched_listed)
   \<and> status (heap watched_listed 0) = ''completed''"
  using monitor_scan_detach [of watched 0 "[Put (LocalQueue 9) 3]" "[]"] monitor_scan_watched
    executor_finish_watched main_drain_watched main_drain_arriving jobs_list_watched
  by (simp add: watched_def idle_def created_job_def watched_drained_def watched_detached_def
      watched_listed_def consumer_def)

subsection \<open>Selecting and starting scans\<close>












lemma requested_other_port: "requested_services (Inr 443) other_port = Inr []"
  by (simp add: requested_services_def other_port_def Let_def py_index_def box_def http_def)

lemma requested_recommended_only: "requested_services (Inr 80) recommended_only = Inr [http]"
  by (simp add: requested_services_def recommended_only_def Let_def py_index_def box_def http_def)





lemma machine_scan_launch_failed:
  "machine_scan (Inr 80) (\<lambda>sc svc. False) [S1, S2] recommended_only idle []
     = Raised ScanLaunchFailed
         (idle\<lparr>printed := [Poutput ''beginning S1 scan on 80/tcp (http)'']\<rparr>, [])"
proof -
  have sel: "matching_scanners recommended_only
               (applicable_scanners [S1, S2] recommended_only) [http] = [S1]"
    by (simp add: matching_scanners_def applicable_scanners_def recommended_only_def
        truthy_def S1_def S2_def)
  have m: "match_service S1 http" by (simp add: S1_def)
  have "machine_scan (Inr 80) (\<lambda>sc svc. False) [S1, S2] recommended_only idle []
          = run_services (\<lambda>sc svc. False) recommended_only [http] [S1] idle []"
    by (simp add: machine_scan_def requested_recommended_only sel Let_def)
  then show ?thesis
    by (simp add: m Let_def scan_def)
       (simp add: poutput_def idle_def beginning_def S1_def http_def str_int_80)
qed




text \<open>
  C9: when the requested services are computed and either none is left or no scanner
  is left for them, \<^verbatim>\<open>machine scan\<close> prints the corresponding error and returns; no
  tracker is allocated, no job is added to the table, nothing is put on a queue and no
  event is consumed.
\<close>

theorem machine_scan_no_match:
  assumes "requested_services port_value args = Inr svcs"
    and "svcs = [] \<or> matching_scanners args (applicable_scanners available args) svcs = []"
  shows "machine_scan port_value startable available args s evs
           = Done (s\<lparr>printed := printed s @
                      [Perror (if svcs = [] then ''no matching services found''
                               else ''no matching scanners found'')]\<rparr>, evs)"
  using assms by (auto simp: machine_scan_def Let_def perror_def)

theorem machine_scan_no_match_witness:
  "requested_services (Inr 443) other_port = Inr []
   \<and> machine_scan (Inr 443) all_start [S1, S2] other_port one_running []
       = Done (one_running\<lparr>printed := [Perror ''no matching services found'']\<rparr>, [])
   \<and> requested_services (Inr 80) recommended_only = Inr [http]
   \<and> matching_scanners recommended_only (applicable_scanners [S2, S3] recommended_only) [http] = []
   \<and> machine_scan (Inr 80) all_start [S2, S3] recommended_only one_running []
       = Done (one_running\<lparr>printed := [Perror ''no matching scanners found'']\<rparr>, [])"
  using machine_scan_no_match [of "Inr 443" other_port "[]" "[S1, S2]" all_start one_running "[]"]
    machine_scan_no_match [of "Inr 80" recommended_only "[http]" "[S2, S3]" all_start
      one_running "[]"]
    requested_other_port requested_recommended_only
  by (simp add: matching_scanners_def applicable_scanners_def recommended_only_def truthy_def
      S2_def S3_def one_running_def)

end
